theory Spec2Isabelle
  imports Main
begin

section \<open>Values exchanged with the collaborators\<close>

text \<open>
  The channel module of the miner (\<^verbatim>\<open>channel.py\<close>) talks to three collaborators: the
  \<^verbatim>\<open>Twitch\<close> client (GQL and HTTP transport, the hooks \<^verbatim>\<open>on_online\<close> and
  \<^verbatim>\<open>on_offline\<close>, the user id), the GUI channel list (\<^verbatim>\<open>display\<close>,
  \<^verbatim>\<open>remove\<close>) and the asyncio scheduler (\<^verbatim>\<open>create_task\<close>, \<^verbatim>\<open>cancel\<close>).
  Responses are JSON documents as \<^verbatim>\<open>json.loads\<close> builds them; numbers are Python's
  unbounded integers (the responses read here carry no fractions).
\<close>

datatype json =
    JNull
  | JBool bool
  | JInt int
  | JStr string
  | JList "json list"
  | JObj "(string \<times> json) list"

text \<open>
  Every \<^verbatim>\<open>raise\<close> of the module, and every exception a subscript, a conversion or a
  collaborator can raise into it, is a value. \<^verbatim>\<open>RequestException\<close> is the transport's
  own failure; \<^verbatim>\<open>MinerException\<close> carries its message.
\<close>

datatype error =
    KeyError string
  | TypeError
  | ValueError
  | AssertionError
  | MinerException string
  | UnicodeDecodeError
  | RequestException
  | OtherException string

text \<open>Python's truth value of a JSON document (\<^verbatim>\<open>if not response\<close>).\<close>

fun truthy :: "json \<Rightarrow> bool" where
  "truthy JNull = False"
| "truthy (JBool b) = b"
| "truthy (JInt n) = (n \<noteq> 0)"
| "truthy (JStr s) = (s \<noteq> [])"
| "truthy (JList xs) = (xs \<noteq> [])"
| "truthy (JObj kvs) = (kvs \<noteq> [])"

text \<open>
  \<^verbatim>\<open>d[key]\<close> with a string key: a dict answers (the last binding of a key is the one a
  dict holds) or raises \<^verbatim>\<open>KeyError\<close>; everything else raises \<^verbatim>\<open>TypeError\<close>.
\<close>

fun subscript :: "json \<Rightarrow> string \<Rightarrow> error + json" where
  "subscript (JObj kvs) k =
     (case map_of (rev kvs) k of None \<Rightarrow> Inl (KeyError k) | Some v \<Rightarrow> Inr v)"
| "subscript _ k = Inl TypeError"

text \<open>
  \<^verbatim>\<open>int(x)\<close>. A string is stripped of surrounding whitespace (tab, line feed, vertical
  tab, form feed, carriage return, space, and the two spaces above ASCII, NEL and the
  no-break space), may carry one sign, and is a run of decimal digits in which single
  underscores may separate digits. The interpreter converts at most
  \<^verbatim>\<open>sys.get_int_max_str_digits()\<close> digits between \<^verbatim>\<open>int\<close> and \<^verbatim>\<open>str\<close>, 4300 unless
  configured otherwise, and raises \<^verbatim>\<open>ValueError\<close> beyond.
\<close>

definition max_str_digits :: nat where
  "max_str_digits = 4300"

definition py_isspace :: "char \<Rightarrow> bool" where
  "py_isspace c = (of_char c \<in> set [9, 10, 11, 12, 13, 32, 133, 160 :: nat])"

definition py_strip :: "string \<Rightarrow> string" where
  "py_strip s = rev (dropWhile py_isspace (rev (dropWhile py_isspace s)))"

definition is_digit :: "char \<Rightarrow> bool" where
  "is_digit c = (48 \<le> (of_char c :: nat) \<and> (of_char c :: nat) \<le> 57)"

definition digit_val :: "char \<Rightarrow> nat" where
  "digit_val c = of_char c - 48"

text \<open>The digits of a literal, underscores checked and dropped; \<open>None\<close> is a syntax error.\<close>

fun int_digits :: "bool \<Rightarrow> string \<Rightarrow> string option" where
  "int_digits after_digit [] = (if after_digit then Some [] else None)"
| "int_digits after_digit (c # cs) =
     (if is_digit c then map_option ((#) c) (int_digits True cs)
      else if c = CHR ''_'' \<and> after_digit then int_digits False cs
      else None)"

definition digits_nat :: "string \<Rightarrow> nat" where
  "digits_nat ds = foldl (\<lambda>acc c. 10 * acc + digit_val c) 0 ds"

definition int_of_str :: "string \<Rightarrow> int option" where
  "int_of_str s =
     (let t = py_strip s;
          neg = (t \<noteq> [] \<and> hd t = CHR ''-'');
          body = (if t \<noteq> [] \<and> (hd t = CHR ''-'' \<or> hd t = CHR ''+'') then tl t else t)
      in case int_digits False body of
           None \<Rightarrow> None
         | Some ds \<Rightarrow>
             if length ds > max_str_digits then None
             else Some (if neg then - int (digits_nat ds) else int (digits_nat ds)))"

fun py_int :: "json \<Rightarrow> error + int" where
  "py_int (JInt n) = Inr n"
| "py_int (JBool b) = Inr (if b then 1 else 0)"
| "py_int (JStr s) = (case int_of_str s of None \<Rightarrow> Inl ValueError | Some n \<Rightarrow> Inr n)"
| "py_int _ = Inl TypeError"

text \<open>
  Iterating a JSON document (\<^verbatim>\<open>for t in tags\<close>): a list gives its elements, a string
  its characters, a dict its keys; nothing else is iterable.
\<close>

fun py_iter :: "json \<Rightarrow> error + json list" where
  "py_iter (JList xs) = Inr xs"
| "py_iter (JStr s) = Inr (map (\<lambda>c. JStr [c]) s)"
| "py_iter (JObj kvs) = Inr (map (\<lambda>kv. JStr (fst kv)) kvs)"
| "py_iter _ = Inl TypeError"

section \<open>The collaborators\<close>

text \<open>
  A request is what the module hands to the transport: a GQL operation of
  \<^verbatim>\<open>GQL_OPERATIONS\<close> with its variables, or an HTTP method, a URL and the form data.
\<close>

datatype request =
    GqlRequest string "(string \<times> string) list"
  | HttpRequest string string "json option"

record response =
  status :: int
  body :: string

text \<open>The hooks the module fires on its collaborators.\<close>

datatype hook = Display bool | Remove | OnOnline | OnOffline

text \<open>
  The environment of a call. The transport answers a request from the history of all
  requests made so far (the last one is the request being answered), so the same request
  can be answered differently later; an answer is a value or a raised exception.
  \<^verbatim>\<open>BASE_URL\<close> and \<^verbatim>\<open>DROPS_ENABLED_TAG\<close> are constants of \<^verbatim>\<open>constants.py\<close>,
  \<^verbatim>\<open>Game\<close> is the constructor of \<^verbatim>\<open>utils.Game\<close>, and \<^verbatim>\<open>re_search\<close> is
  \<^verbatim>\<open>re.search(pattern, text, re.I)\<close> followed by \<^verbatim>\<open>group(1)\<close>: none of them is code
  of this module, so they are parameters.
\<close>

record 'g env =
  user_id :: int
  gql_request :: "request list \<Rightarrow> error + json"
  http_request :: "request list \<Rightarrow> error + response"
  BASE_URL :: string
  DROPS_ENABLED_TAG :: string
  Game :: "json \<Rightarrow> error + 'g"
  re_search :: "string \<Rightarrow> string \<Rightarrow> string option"

text \<open>
  What the module has done to the outside so far: the requests it made, the hooks it
  fired (oldest first), and the tasks of the event loop: \<open>next_task\<close> names the next
  task \<^verbatim>\<open>asyncio.create_task\<close> creates, \<open>scheduled\<close> holds the tasks that were created
  and have neither finished nor been cancelled.
\<close>

record world =
  calls :: "request list"
  hooks :: "hook list"
  next_task :: nat
  scheduled :: "nat list"

definition fire :: "hook \<Rightarrow> world \<Rightarrow> world" where
  "fire h w = w\<lparr>hooks := hooks w @ [h]\<rparr>"

definition create_task :: "world \<Rightarrow> nat \<times> world" where
  "create_task w =
     (next_task w, w\<lparr>next_task := Suc (next_task w), scheduled := next_task w # scheduled w\<rparr>)"

definition cancel :: "nat \<Rightarrow> world \<Rightarrow> world" where
  "cancel t w = w\<lparr>scheduled := removeAll t (scheduled w)\<rparr>"

section \<open>Stream\<close>

text \<open>
  \<^verbatim>\<open>Stream.__init__\<close>. The back reference to the owning channel is not stored: the
  channel owns the stream. \<^verbatim>\<open>viewers\<close> and \<^verbatim>\<open>title\<close> are kept as received.
\<close>

record 'g stream =
  broadcast_id :: int
  viewers :: json
  drops_enabled :: bool
  game :: "'g option"
  title :: json

text \<open>\<^verbatim>\<open>any(t["id"] == DROPS_ENABLED_TAG for t in tags)\<close>: stops at the first hit.\<close>

fun any_tag :: "string \<Rightarrow> json list \<Rightarrow> error + bool" where
  "any_tag tag [] = Inr False"
| "any_tag tag (t # ts) =
     (case subscript t ''id'' of
        Inl e \<Rightarrow> Inl e
      | Inr v \<Rightarrow> if v = JStr tag then Inr True else any_tag tag ts)"

definition Stream :: "'g env \<Rightarrow> json \<Rightarrow> json \<Rightarrow> json \<Rightarrow> json \<Rightarrow> json \<Rightarrow> error + 'g stream" where
  "Stream tw id_arg game_arg viewers_arg title_arg tags_arg =
     (case py_int id_arg of
        Inl e \<Rightarrow> Inl e
      | Inr bid \<Rightarrow>
     (case py_iter tags_arg of
        Inl e \<Rightarrow> Inl e
      | Inr tags \<Rightarrow>
     (case any_tag (DROPS_ENABLED_TAG tw) tags of
        Inl e \<Rightarrow> Inl e
      | Inr de \<Rightarrow>
     (case (if truthy game_arg then map_sum (\<lambda>e. e) Some (Game tw game_arg) else Inr None) of
        Inl e \<Rightarrow> Inl e
      | Inr g \<Rightarrow>
          Inr \<lparr>broadcast_id = bid, viewers = viewers_arg, drops_enabled = de,
               game = g, title = title_arg\<rparr>))))"

definition from_get_stream :: "'g env \<Rightarrow> json \<Rightarrow> error + 'g stream" where
  "from_get_stream tw data =
     (case subscript data ''stream'' of Inl e \<Rightarrow> Inl e | Inr strm \<Rightarrow>
     (case subscript data ''broadcastSettings'' of Inl e \<Rightarrow> Inl e | Inr settings \<Rightarrow>
     (case subscript strm ''id'' of Inl e \<Rightarrow> Inl e | Inr i \<Rightarrow>
     (case subscript settings ''game'' of Inl e \<Rightarrow> Inl e | Inr g \<Rightarrow>
     (case subscript strm ''viewersCount'' of Inl e \<Rightarrow> Inl e | Inr v \<Rightarrow>
     (case subscript settings ''title'' of Inl e \<Rightarrow> Inl e | Inr t \<Rightarrow>
     (case subscript strm ''tags'' of Inl e \<Rightarrow> Inl e | Inr tags \<Rightarrow>
        Stream tw i g v t tags)))))))"

definition stream_from_directory :: "'g env \<Rightarrow> json \<Rightarrow> error + 'g stream" where
  "stream_from_directory tw data =
     (case subscript data ''id'' of Inl e \<Rightarrow> Inl e | Inr i \<Rightarrow>
     (case subscript data ''game'' of Inl e \<Rightarrow> Inl e | Inr g \<Rightarrow>
     (case subscript data ''viewersCount'' of Inl e \<Rightarrow> Inl e | Inr v \<Rightarrow>
     (case subscript data ''title'' of Inl e \<Rightarrow> Inl e | Inr t \<Rightarrow>
     (case subscript data ''tags'' of Inl e \<Rightarrow> Inl e | Inr tags \<Rightarrow>
        Stream tw i g v t tags)))))"

section \<open>Channel\<close>

text \<open>
  The fields of \<^verbatim>\<open>Channel.__init__\<close>, and \<open>payload_cache\<close>: the entry
  \<^verbatim>\<open>_payload\<close> that \<^verbatim>\<open>functools.cached_property\<close> keeps in the instance's
  \<^verbatim>\<open>__dict__\<close> once the property has been computed. \<open>pending_stream_up\<close> holds the
  handle of the task running \<^verbatim>\<open>_online_delay\<close>. \<^verbatim>\<open>display_name\<close> and
  \<^verbatim>\<open>points\<close> are stored as received (\<open>JNull\<close> is \<^verbatim>\<open>None\<close>); \<^verbatim>\<open>login\<close> is the
  \<^verbatim>\<open>str\<close> the constructor is given.
\<close>

record 'g channel =
  channel_id :: int
  login :: string
  display_name :: json
  spade_url :: "string option"
  points :: json
  stream :: "'g stream option"
  pending_stream_up :: "nat option"
  priority :: bool
  payload_cache :: "json option"

definition Channel :: "json \<Rightarrow> string \<Rightarrow> json \<Rightarrow> bool \<Rightarrow> error + 'g channel" where
  "Channel id_arg login_arg display_name_arg priority_arg =
     (case py_int id_arg of
        Inl e \<Rightarrow> Inl e
      | Inr i \<Rightarrow>
          Inr \<lparr>channel_id = i, login = login_arg, display_name = display_name_arg,
               spade_url = None, points = JNull, stream = None, pending_stream_up = None,
               priority = priority_arg, payload_cache = None\<rparr>)"

subsection \<open>Status queries\<close>

definition online :: "'g channel \<Rightarrow> bool" where
  "online c = (stream c \<noteq> None)"

definition offline :: "'g channel \<Rightarrow> bool" where
  "offline c = (stream c = None \<and> pending_stream_up c = None)"

definition pending_online :: "'g channel \<Rightarrow> bool" where
  "pending_online c = (pending_stream_up c \<noteq> None)"

definition url :: "'g env \<Rightarrow> 'g channel \<Rightarrow> string" where
  "url tw c = BASE_URL tw @ ''/'' @ login c"

subsection \<open>The payload cache\<close>

definition invalidate_cache :: "'g channel \<Rightarrow> 'g channel" where
  \<comment> \<open>Modelled from the spec: \<^verbatim>\<open>utils.invalidate_cache(self, "_payload")\<close> is not in the
      module; the cache is "dropped, to be recomputed next access".\<close>
  "invalidate_cache c = c\<lparr>payload_cache := None\<rparr>"

subsection \<open>Live lookup\<close>

text \<open>
  Every operation takes the channel and the world and returns its result (or the
  exception it raised) with the channel and the world as it left them: what was assigned
  before an exception stays assigned.
\<close>

definition get_stream ::
  "'g env \<Rightarrow> 'g channel \<Rightarrow> world \<Rightarrow> (error + 'g stream option) \<times> 'g channel \<times> world" where
  "get_stream tw c w =
     (let w1 = w\<lparr>calls := calls w @ [GqlRequest ''GetStreamInfo'' [(''channel'', login c)]]\<rparr>
      in case gql_request tw (calls w1) of
           Inl e \<Rightarrow> (Inl e, c, w1)
         | Inr resp \<Rightarrow>
             if \<not> truthy resp then (Inr None, c, w1)
             else (case subscript resp ''data'' of Inl e \<Rightarrow> (Inl e, c, w1) | Inr d \<Rightarrow>
                  (case subscript d ''user'' of Inl e \<Rightarrow> (Inl e, c, w1) | Inr stream_data \<Rightarrow>
                   if \<not> truthy stream_data then (Inr None, c, w1)
                   else (case subscript stream_data ''id'' of Inl e \<Rightarrow> (Inl e, c, w1) | Inr i \<Rightarrow>
                        (case py_int i of Inl e \<Rightarrow> (Inl e, c, w1) | Inr n \<Rightarrow>
                        (let c1 = c\<lparr>channel_id := n\<rparr>
                         in case subscript stream_data ''displayName'' of
                              Inl e \<Rightarrow> (Inl e, c1, w1)
                            | Inr dn \<Rightarrow>
                        (let c2 = c1\<lparr>display_name := dn\<rparr>
                         in case subscript stream_data ''stream'' of
                              Inl e \<Rightarrow> (Inl e, c2, w1)
                            | Inr s \<Rightarrow>
                                if \<not> truthy s then (Inr None, c2, w1)
                                else (case from_get_stream tw stream_data of
                                        Inl e \<Rightarrow> (Inl e, c2, w1)
                                      | Inr st \<Rightarrow> (Inr (Some st), c2, w1)))))))))"

definition check_online ::
  "'g env \<Rightarrow> 'g channel \<Rightarrow> world \<Rightarrow> (error + bool) \<times> 'g channel \<times> world" where
  "check_online tw c w =
     (case get_stream tw c w of
        (Inl e, c1, w1) \<Rightarrow> (Inl e, c1, w1)
      | (Inr s, c1, w1) \<Rightarrow>
          (let c2 = c1\<lparr>stream := s\<rparr>
           in if s = None then (Inr False, invalidate_cache c2, w1) else (Inr True, c2, w1)))"

definition from_name ::
  "'g env \<Rightarrow> string \<Rightarrow> bool \<Rightarrow> world \<Rightarrow> (error + 'g channel) \<times> world" where
  "from_name tw channel_login priority_arg w =
     (case Channel (JInt 0) channel_login JNull priority_arg of
        Inl e \<Rightarrow> (Inl e, w)
      | Inr c \<Rightarrow>
          (case get_stream tw c w of
             (Inl e, c1, w1) \<Rightarrow> (Inl e, w1)
           | (Inr s, c1, w1) \<Rightarrow>
               (if s \<noteq> None then (Inr (c1\<lparr>stream := s\<rparr>), w1) else (Inr c1, w1))))"

subsection \<open>Transitions\<close>

text \<open>
  \<^verbatim>\<open>_online_delay\<close> after its sleep: the body of the task, run by the event loop. The
  sleep itself is the time between \<^verbatim>\<open>set_online\<close> and the task's turn.
\<close>

definition online_delay ::
  "'g env \<Rightarrow> 'g channel \<Rightarrow> world \<Rightarrow> (error + unit) \<times> 'g channel \<times> world" where
  "online_delay tw c w =
     (case check_online tw c w of
        (Inl e, c1, w1) \<Rightarrow> (Inl e, c1, w1)
      | (Inr on, c1, w1) \<Rightarrow>
          (let c2 = c1\<lparr>pending_stream_up := None\<rparr>;
               w2 = fire (Display False) w1
           in if on then (Inr (), c2, fire OnOnline w2) else (Inr (), c2, w2)))"

definition set_online :: "'g channel \<Rightarrow> world \<Rightarrow> 'g channel \<times> world" where
  "set_online c w =
     (if offline c
      then (case create_task w of
              (t, w1) \<Rightarrow> (c\<lparr>pending_stream_up := Some t\<rparr>, fire (Display False) w1))
      else (c, w))"

definition set_offline :: "'g channel \<Rightarrow> world \<Rightarrow> 'g channel \<times> world" where
  "set_offline c w =
     (case (case pending_stream_up c of
              Some t \<Rightarrow> (c\<lparr>pending_stream_up := None\<rparr>, fire (Display False) (cancel t w))
            | None \<Rightarrow> (c, w)) of
        (c1, w1) \<Rightarrow>
          if online c1
          then (invalidate_cache (c1\<lparr>stream := None\<rparr>),
                fire OnOffline (fire (Display False) w1))
          else (c1, w1))"

definition remove :: "'g channel \<Rightarrow> world \<Rightarrow> 'g channel \<times> world" where
  "remove c w =
     (case (case pending_stream_up c of
              Some t \<Rightarrow> (c\<lparr>pending_stream_up := None\<rparr>, cancel t w)
            | None \<Rightarrow> (c, w)) of
        (c1, w1) \<Rightarrow> (c1, fire Remove w1))"

text \<open>The setter of \<^verbatim>\<open>viewers\<close>: it writes into the stream, when there is one.\<close>

definition set_viewers :: "json \<Rightarrow> 'g channel \<Rightarrow> 'g channel" where
  "set_viewers v c =
     (case stream c of None \<Rightarrow> c | Some s \<Rightarrow> c\<lparr>stream := Some (s\<lparr>viewers := v\<rparr>)\<rparr>)"

section \<open>The heartbeat payload\<close>

subsection \<open>Compact JSON, as \<^verbatim>\<open>json.dumps(payload, separators=(",", ":"))\<close> writes it\<close>

definition dquote :: char where
  "dquote = CHR 0x22"

definition backslash :: char where
  "backslash = CHR 0x5C"

definition hex_digit :: "nat \<Rightarrow> char" where
  "hex_digit n = (if n < 10 then char_of (48 + n) else char_of (87 + n))"

text \<open>
  A character of a string (a code point below 256), with \<^verbatim>\<open>ensure_ascii\<close>: the quote,
  the backslash and everything outside \<^verbatim>\<open>' '..'~'\<close> is escaped.
\<close>

definition escape_char :: "char \<Rightarrow> string" where
  "escape_char c =
     (if c = dquote then [backslash, dquote]
      else if c = backslash then [backslash, backslash]
      else if c = CHR 0x08 then [backslash, CHR ''b'']
      else if c = CHR 0x0C then [backslash, CHR ''f'']
      else if c = CHR 0x0A then [backslash, CHR ''n'']
      else if c = CHR 0x0D then [backslash, CHR ''r'']
      else if c = CHR 0x09 then [backslash, CHR ''t'']
      else if 32 \<le> (of_char c :: nat) \<and> (of_char c :: nat) \<le> 126 then [c]
      else [backslash, CHR ''u'', CHR ''0'', CHR ''0'',
            hex_digit (of_char c div 16), hex_digit (of_char c mod 16)])"

definition encode_str :: "string \<Rightarrow> string" where
  "encode_str s = [dquote] @ concat (map escape_char s) @ [dquote]"

function nat_repr :: "nat \<Rightarrow> string" where
  "nat_repr n =
     (if n < 10 then [char_of (48 + n)] else nat_repr (n div 10) @ [char_of (48 + n mod 10)])"
  by pat_completeness auto
termination
  by (relation "measure (\<lambda>n. n)") auto

definition int_repr :: "int \<Rightarrow> string" where
  "int_repr i = (if i < 0 then CHR ''-'' # nat_repr (nat (- i)) else nat_repr (nat i))"

fun join :: "string \<Rightarrow> string list \<Rightarrow> string" where
  "join sep [] = []"
| "join sep [x] = x"
| "join sep (x # y # ys) = x @ sep @ join sep (y # ys)"

fun json_dumps :: "json \<Rightarrow> string" where
  "json_dumps JNull = ''null''"
| "json_dumps (JBool b) = (if b then ''true'' else ''false'')"
| "json_dumps (JInt i) = int_repr i"
| "json_dumps (JStr s) = encode_str s"
| "json_dumps (JList xs) = ''['' @ join '','' (map json_dumps xs) @ '']''"
| "json_dumps (JObj kvs) =
     ''{'' @ join '','' (map (\<lambda>kv. encode_str (fst kv) @ '':'' @ json_dumps (snd kv)) kvs) @ ''}''"

text \<open>
  \<^verbatim>\<open>json.dumps\<close> writes an integer with \<^verbatim>\<open>int.__repr__\<close>, which raises
  \<^verbatim>\<open>ValueError\<close> for an integer of more digits than the interpreter converts: a
  document is written when all its integers are within that limit.
\<close>

definition fits_str_digits :: "int \<Rightarrow> bool" where
  "fits_str_digits i = (length (nat_repr (nat \<bar>i\<bar>)) \<le> max_str_digits)"

fun dumps_allowed :: "json \<Rightarrow> bool" where
  "dumps_allowed (JInt i) = fits_str_digits i"
| "dumps_allowed (JList xs) = list_all dumps_allowed xs"
| "dumps_allowed (JObj kvs) = list_all (\<lambda>kv. dumps_allowed (snd kv)) kvs"
| "dumps_allowed _ = True"

subsection \<open>\<^verbatim>\<open>str.encode("utf8")\<close>, \<^verbatim>\<open>bytes.decode("utf8")\<close> and \<^verbatim>\<open>base64.b64encode\<close>\<close>

text \<open>
  A \<^verbatim>\<open>str\<close> is a list of code points below 256 and a \<^verbatim>\<open>bytes\<close> a list of bytes,
  both \<open>string\<close>. A code point from 128 on takes two bytes; the decoder reads back
  what the encoder writes and refuses everything else.
\<close>

definition utf8_encode :: "string \<Rightarrow> string" where
  "utf8_encode s =
     concat (map (\<lambda>c. if (of_char c :: nat) < 128 then [c]
                        else [char_of (192 + (of_char c :: nat) div 64),
                              char_of (128 + (of_char c :: nat) mod 64)]) s)"

fun utf8_decode :: "string \<Rightarrow> string option" where
  "utf8_decode [] = Some []"
| "utf8_decode (b # bs) =
     (if (of_char b :: nat) < 128 then map_option ((#) b) (utf8_decode bs)
      else (case bs of
              [] \<Rightarrow> None
            | b2 # bs' \<Rightarrow>
                if ((of_char b :: nat) = 194 \<or> (of_char b :: nat) = 195)
                   \<and> 128 \<le> (of_char b2 :: nat) \<and> (of_char b2 :: nat) < 192
                then map_option ((#) (char_of (((of_char b :: nat) - 192) * 64
                                               + ((of_char b2 :: nat) - 128))))
                       (utf8_decode bs')
                else None))"

definition b64_alphabet :: string where
  "b64_alphabet = ''ABCDEFGHIJKLMNOPQRSTUVWXYZabcdefghijklmnopqrstuvwxyz0123456789+/''"

definition b64_char :: "nat \<Rightarrow> char" where
  "b64_char i = b64_alphabet ! (i mod 64)"

fun b64encode :: "string \<Rightarrow> string" where
  "b64encode [] = []"
| "b64encode [a] =
     (let n = (of_char a :: nat) * 65536
      in [b64_char (n div 262144), b64_char (n div 4096), CHR ''='', CHR ''=''])"
| "b64encode [a, b] =
     (let n = (of_char a :: nat) * 65536 + (of_char b :: nat) * 256
      in [b64_char (n div 262144), b64_char (n div 4096), b64_char (n div 64), CHR ''=''])"
| "b64encode (a # b # c # bs) =
     (let n = (of_char a :: nat) * 65536 + (of_char b :: nat) * 256 + (of_char c :: nat)
      in [b64_char (n div 262144), b64_char (n div 4096), b64_char (n div 64), b64_char n]
         @ b64encode bs)"

subsection \<open>\<^verbatim>\<open>Channel._payload\<close>\<close>

text \<open>The function under \<^verbatim>\<open>cached_property\<close>: the payload computed from the fields.\<close>

definition minute_watched :: "'g env \<Rightarrow> 'g channel \<Rightarrow> 'g stream \<Rightarrow> json" where
  "minute_watched tw c s =
     JList [JObj [(''event'', JStr ''minute-watched''),
                  (''properties'',
                     JObj [(''channel_id'', JInt (channel_id c)),
                           (''broadcast_id'', JInt (broadcast_id s)),
                           (''player'', JStr ''site''),
                           (''user_id'', JInt (user_id tw))])]]"

definition compute_payload :: "'g env \<Rightarrow> 'g channel \<Rightarrow> error + json" where
  "compute_payload tw c =
     (case stream c of
        None \<Rightarrow> Inl AssertionError
      | Some s \<Rightarrow>
          if \<not> dumps_allowed (minute_watched tw c s) then Inl ValueError
          else
            (case utf8_decode (b64encode (utf8_encode (json_dumps (minute_watched tw c s)))) of
               None \<Rightarrow> Inl UnicodeDecodeError
             | Some d \<Rightarrow> Inr (JObj [(''data'', JStr d)])))"

text \<open>
  Reading \<^verbatim>\<open>self._payload\<close>: the cached value when there is one, else the computed
  value, which is then cached. An exception caches nothing.
\<close>

definition payload :: "'g env \<Rightarrow> 'g channel \<Rightarrow> (error + json) \<times> 'g channel" where
  "payload tw c =
     (case payload_cache c of
        Some p \<Rightarrow> (Inr p, c)
      | None \<Rightarrow>
          (case compute_payload tw c of
             Inl e \<Rightarrow> (Inl e, c)
           | Inr p \<Rightarrow> (Inr p, c\<lparr>payload_cache := Some p\<rparr>)))"

section \<open>The spade URL and the heartbeat\<close>

definition settings_pattern :: string where
  "settings_pattern =
     ''src='' @ [dquote] @ ''(https://static'' @ [backslash] @ ''.twitchcdn'' @ [backslash]
     @ ''.net/config/settings'' @ [backslash] @ ''.[0-9a-f]{32}'' @ [backslash] @ ''.js)''
     @ [dquote]"

definition spade_pattern :: string where
  "spade_pattern =
     [dquote] @ ''spade_url'' @ [dquote] @ '': ?'' @ [dquote] @ ''(https://video-edge-[.''
     @ [backslash] @ ''w'' @ [backslash] @ ''-/]+'' @ [backslash] @ ''.ts)'' @ [dquote]"

definition get_spade_url ::
  "'g env \<Rightarrow> 'g channel \<Rightarrow> world \<Rightarrow> (error + string) \<times> world" where
  "get_spade_url tw c w =
     (let w1 = w\<lparr>calls := calls w @ [HttpRequest ''GET'' (url tw c) None]\<rparr>
      in case http_request tw (calls w1) of
           Inl e \<Rightarrow> (Inl e, w1)
         | Inr r1 \<Rightarrow>
             (case re_search tw settings_pattern (body r1) of
                None \<Rightarrow> (Inl (MinerException ''Error while spade_url extraction: step #1''), w1)
              | Some streamer_settings \<Rightarrow>
                  (let w2 = w1\<lparr>calls := calls w1 @ [HttpRequest ''GET'' streamer_settings None]\<rparr>
                   in case http_request tw (calls w2) of
                        Inl e \<Rightarrow> (Inl e, w2)
                      | Inr r2 \<Rightarrow>
                          (case re_search tw spade_pattern (body r2) of
                             None \<Rightarrow>
                               (Inl (MinerException ''Error while spade_url extraction: step #2''), w2)
                           | Some m \<Rightarrow> (Inr m, w2)))))"

text \<open>
  \<^verbatim>\<open>if self._spade_url is None: self._spade_url = await self.get_spade_url()\<close>, and
  the URL then read from the field.
\<close>

definition ensure_spade_url ::
  "'g env \<Rightarrow> 'g channel \<Rightarrow> world \<Rightarrow> (error + string) \<times> 'g channel \<times> world" where
  "ensure_spade_url tw c w =
     (case spade_url c of
        None \<Rightarrow>
          (case get_spade_url tw c w of
             (Inl e, w1) \<Rightarrow> (Inl e, c, w1)
           | (Inr u, w1) \<Rightarrow> (Inr u, c\<lparr>spade_url := Some u\<rparr>, w1))
      | Some u \<Rightarrow> (Inr u, c, w))"

text \<open>
  \<^verbatim>\<open>send_watch\<close>. The \<^verbatim>\<open>try\<close> covers the payload and the POST; only
  \<^verbatim>\<open>RequestException\<close> is caught.
\<close>

definition send_watch ::
  "'g env \<Rightarrow> 'g channel \<Rightarrow> world \<Rightarrow> (error + bool) \<times> 'g channel \<times> world" where
  "send_watch tw c w =
     (if \<not> online c then (Inr False, c, w)
      else
        (case ensure_spade_url tw c w of
           (Inl e, c1, w1) \<Rightarrow> (Inl e, c1, w1)
         | (Inr u, c1, w1) \<Rightarrow>
             (case payload tw c1 of
                (Inl e, c2) \<Rightarrow>
                  if e = RequestException then (Inr False, c2, w1) else (Inl e, c2, w1)
              | (Inr p, c2) \<Rightarrow>
                  (let w2 = w1\<lparr>calls := calls w1 @ [HttpRequest ''POST'' u (Some p)]\<rparr>
                   in case http_request tw (calls w2) of
                        Inl e \<Rightarrow>
                          if e = RequestException then (Inr False, c2, w2) else (Inl e, c2, w2)
                      | Inr r \<Rightarrow> (Inr (status r = 204), c2, w2)))))"

section \<open>Runs of the channel\<close>

subsection \<open>The operations from their suspension points on\<close>

text \<open>
  \<^verbatim>\<open>check_online\<close>, \<^verbatim>\<open>_online_delay\<close> and \<^verbatim>\<open>send_watch\<close> are coroutines: at
  each \<^verbatim>\<open>await\<close> of a request the coroutine is suspended, other operations run, and the
  rest of the coroutine runs when the answer has arrived, on the channel as it is then.
  The functions above are the coroutines run without anything in between. Here is the
  rest of each coroutine from the answer \<open>a\<close> of its request on.
\<close>

definition get_stream_after ::
  "'g env \<Rightarrow> error + json \<Rightarrow> 'g channel \<Rightarrow> (error + 'g stream option) \<times> 'g channel" where
  "get_stream_after tw a c =
     (case a of
        Inl e \<Rightarrow> (Inl e, c)
      | Inr resp \<Rightarrow>
          if \<not> truthy resp then (Inr None, c)
          else (case subscript resp ''data'' of Inl e \<Rightarrow> (Inl e, c) | Inr d \<Rightarrow>
               (case subscript d ''user'' of Inl e \<Rightarrow> (Inl e, c) | Inr stream_data \<Rightarrow>
                if \<not> truthy stream_data then (Inr None, c)
                else (case subscript stream_data ''id'' of Inl e \<Rightarrow> (Inl e, c) | Inr i \<Rightarrow>
                     (case py_int i of Inl e \<Rightarrow> (Inl e, c) | Inr n \<Rightarrow>
                     (let c1 = c\<lparr>channel_id := n\<rparr>
                      in case subscript stream_data ''displayName'' of
                           Inl e \<Rightarrow> (Inl e, c1)
                         | Inr dn \<Rightarrow>
                     (let c2 = c1\<lparr>display_name := dn\<rparr>
                      in case subscript stream_data ''stream'' of
                           Inl e \<Rightarrow> (Inl e, c2)
                         | Inr s \<Rightarrow>
                             if \<not> truthy s then (Inr None, c2)
                             else (case from_get_stream tw stream_data of
                                     Inl e \<Rightarrow> (Inl e, c2)
                                   | Inr st \<Rightarrow> (Inr (Some st), c2)))))))))"

definition check_online_after ::
  "'g env \<Rightarrow> error + json \<Rightarrow> 'g channel \<Rightarrow> (error + bool) \<times> 'g channel" where
  "check_online_after tw a c =
     (case get_stream_after tw a c of
        (Inl e, c1) \<Rightarrow> (Inl e, c1)
      | (Inr s, c1) \<Rightarrow>
          (let c2 = c1\<lparr>stream := s\<rparr>
           in if s = None then (Inr False, invalidate_cache c2) else (Inr True, c2)))"

definition online_delay_after ::
  "'g env \<Rightarrow> error + json \<Rightarrow> 'g channel \<Rightarrow> world \<Rightarrow> (error + unit) \<times> 'g channel \<times> world" where
  "online_delay_after tw a c w =
     (case check_online_after tw a c of
        (Inl e, c1) \<Rightarrow> (Inl e, c1, w)
      | (Inr on, c1) \<Rightarrow>
          (let c2 = c1\<lparr>pending_stream_up := None\<rparr>;
               w2 = fire (Display False) w
           in if on then (Inr (), c2, fire OnOnline w2) else (Inr (), c2, w2)))"

text \<open>
  A suspended coroutine, with the answer that is on its way to it: \<^verbatim>\<open>check_online\<close>
  called from outside and awaiting its lookup; the \<^verbatim>\<open>_online_delay\<close> of the task \<open>t\<close>
  awaiting the lookup of its \<^verbatim>\<open>check_online\<close>; \<^verbatim>\<open>send_watch\<close> awaiting the page, the
  settings script, or the POST. A task that sleeps is in \<open>scheduled\<close> and not here.
\<close>

datatype coroutine =
    AwaitLookup "error + json"
  | AwaitDelayLookup nat "error + json"
  | AwaitPage "error + response"
  | AwaitSettings "error + response"
  | AwaitPost "error + response"

definition issue :: "request \<Rightarrow> world \<Rightarrow> world" where
  "issue r w = w\<lparr>calls := calls w @ [r]\<rparr>"

text \<open>
  \<^verbatim>\<open>send_watch\<close> from the spade URL on: the payload is read, and the POST is issued
  unless reading the payload raised.
\<close>

definition post_watch ::
  "'g env \<Rightarrow> string \<Rightarrow> 'g channel \<Rightarrow> world \<Rightarrow> 'g channel \<times> world \<times> coroutine list" where
  "post_watch tw u c w =
     (case payload tw c of
        (Inl e, c2) \<Rightarrow> (c2, w, [])
      | (Inr p, c2) \<Rightarrow>
          (let w2 = issue (HttpRequest ''POST'' u (Some p)) w
           in (c2, w2, [AwaitPost (http_request tw (calls w2))])))"

text \<open>\<^verbatim>\<open>send_watch\<close> up to its first \<^verbatim>\<open>await\<close>.\<close>

definition send_watch_start ::
  "'g env \<Rightarrow> 'g channel \<Rightarrow> world \<Rightarrow> 'g channel \<times> world \<times> coroutine list" where
  "send_watch_start tw c w =
     (if \<not> online c then (c, w, [])
      else (case spade_url c of
              None \<Rightarrow>
                (let w1 = issue (HttpRequest ''GET'' (url tw c) None) w
                 in (c, w1, [AwaitPage (http_request tw (calls w1))]))
            | Some u \<Rightarrow> post_watch tw u c w))"

text \<open>
  A coroutine resumed with its answer: the channel and the world it leaves, and the
  coroutine it is suspended as next, if any. A task that was cancelled is not resumed,
  and a task that ran to its end or to an exception is finished.
\<close>

fun resume ::
  "'g env \<Rightarrow> coroutine \<Rightarrow> 'g channel \<Rightarrow> world \<Rightarrow> 'g channel \<times> world \<times> coroutine list" where
  "resume tw (AwaitLookup a) c w = (snd (check_online_after tw a c), w, [])"
| "resume tw (AwaitDelayLookup t a) c w =
     (if t \<in> set (scheduled w)
      then (case online_delay_after tw a c (cancel t w) of (r, c1, w1) \<Rightarrow> (c1, w1, []))
      else (c, w, []))"
| "resume tw (AwaitPage a) c w =
     (case a of
        Inl e \<Rightarrow> (c, w, [])
      | Inr r1 \<Rightarrow>
          (case re_search tw settings_pattern (body r1) of
             None \<Rightarrow> (c, w, [])
           | Some streamer_settings \<Rightarrow>
               (let w2 = issue (HttpRequest ''GET'' streamer_settings None) w
                in (c, w2, [AwaitSettings (http_request tw (calls w2))]))))"
| "resume tw (AwaitSettings a) c w =
     (case a of
        Inl e \<Rightarrow> (c, w, [])
      | Inr r2 \<Rightarrow>
          (case re_search tw spade_pattern (body r2) of
             None \<Rightarrow> (c, w, [])
           | Some m \<Rightarrow> post_watch tw m (c\<lparr>spade_url := Some m\<rparr>) w))"
| "resume tw (AwaitPost a) c w = (c, w, [])"

subsection \<open>Steps\<close>

text \<open>
  What happens to a channel, one step at a time: the two signals of the event feed, the
  removal from the list, the viewer count, a call of \<^verbatim>\<open>check_online\<close> or of
  \<^verbatim>\<open>send_watch\<close> (up to its first \<^verbatim>\<open>await\<close>), the end of the sleep of the task \<open>t\<close>
  (it issues its lookup), and the arrival of the answer for the \<open>k\<close>-th suspended
  coroutine. The steps come in any order. \<^verbatim>\<open>claim_bonus\<close>, which assigns
  \<^verbatim>\<open>points\<close> and refreshes the display, is not among them.
\<close>

datatype op =
    SetOnline
  | SetOffline
  | RemoveChannel
  | SetViewers json
  | CheckOnline
  | SendWatch
  | SleepOver nat
  | Resume nat

fun awaits_task :: "nat \<Rightarrow> coroutine \<Rightarrow> bool" where
  "awaits_task t (AwaitDelayLookup t' a) = (t = t')"
| "awaits_task t _ = False"

fun step ::
  "'g env \<Rightarrow> op \<Rightarrow> 'g channel \<times> world \<times> coroutine list \<Rightarrow> 'g channel \<times> world \<times> coroutine list" where
  "step tw SetOnline (c, w, p) = (case set_online c w of (c1, w1) \<Rightarrow> (c1, w1, p))"
| "step tw SetOffline (c, w, p) = (case set_offline c w of (c1, w1) \<Rightarrow> (c1, w1, p))"
| "step tw RemoveChannel (c, w, p) = (case remove c w of (c1, w1) \<Rightarrow> (c1, w1, p))"
| "step tw (SetViewers v) (c, w, p) = (set_viewers v c, w, p)"
| "step tw CheckOnline (c, w, p) =
     (let w1 = issue (GqlRequest ''GetStreamInfo'' [(''channel'', login c)]) w
      in (c, w1, p @ [AwaitLookup (gql_request tw (calls w1))]))"
| "step tw SendWatch (c, w, p) =
     (case send_watch_start tw c w of (c1, w1, q) \<Rightarrow> (c1, w1, p @ q))"
| "step tw (SleepOver t) (c, w, p) =
     (if t \<in> set (scheduled w) \<and> \<not> list_ex (awaits_task t) p
      then (let w1 = issue (GqlRequest ''GetStreamInfo'' [(''channel'', login c)]) w
            in (c, w1, p @ [AwaitDelayLookup t (gql_request tw (calls w1))]))
      else (c, w, p))"
| "step tw (Resume k) (c, w, p) =
     (if k < length p
      then (case resume tw (p ! k) c w of (c1, w1, q) \<Rightarrow> (c1, w1, take k p @ drop (Suc k) p @ q))
      else (c, w, p))"

fun run ::
  "'g env \<Rightarrow> op list \<Rightarrow> 'g channel \<times> world \<times> coroutine list \<Rightarrow> 'g channel \<times> world \<times> coroutine list" where
  "run tw [] s = s"
| "run tw (x # xs) s = run tw xs (step tw x s)"

text \<open>The hooks fired between two worlds.\<close>

definition fired :: "world \<Rightarrow> world \<Rightarrow> hook list" where
  "fired w w' = drop (length (hooks w)) (hooks w')"

definition world0 :: world where
  "world0 = \<lparr>calls = [], hooks = [], next_task = 0, scheduled = []\<rparr>"

section \<open>Reading a payload back\<close>

text \<open>
  What the receiver of a heartbeat does with the \<^verbatim>\<open>data\<close> field:
  \<^verbatim>\<open>base64.b64decode\<close>, \<^verbatim>\<open>bytes.decode("utf8")\<close> (above) and \<^verbatim>\<open>json.loads\<close>.
  These are written independently of the encoders; \<open>None\<close> is a text the decoder
  refuses.
\<close>

fun index_of :: "'a \<Rightarrow> 'a list \<Rightarrow> nat option" where
  "index_of x [] = None"
| "index_of x (y # ys) = (if x = y then Some 0 else map_option Suc (index_of x ys))"

definition b64_index :: "char \<Rightarrow> nat option" where
  "b64_index c = index_of c b64_alphabet"

text \<open>
  Four characters give 24 bits, three bytes; a last group padded with one or two
  \<^verbatim>\<open>=\<close> gives two bytes or one.
\<close>

definition sextets :: "nat \<Rightarrow> nat \<Rightarrow> nat \<Rightarrow> nat \<Rightarrow> nat" where
  "sextets i0 i1 i2 i3 = ((i0 * 64 + i1) * 64 + i2) * 64 + i3"

fun b64decode :: "string \<Rightarrow> string option" where
  "b64decode [] = Some []"
| "b64decode (c0 # c1 # c2 # c3 # cs) =
     (case (b64_index c0, b64_index c1) of
        (Some i0, Some i1) \<Rightarrow>
          if c2 = CHR ''=''
          then (if c3 = CHR ''='' \<and> cs = []
                then Some [char_of (sextets i0 i1 0 0 div 65536)]
                else None)
          else (case b64_index c2 of
                  None \<Rightarrow> None
                | Some i2 \<Rightarrow>
                    if c3 = CHR ''=''
                    then (if cs = []
                          then Some [char_of (sextets i0 i1 i2 0 div 65536),
                                     char_of (sextets i0 i1 i2 0 div 256)]
                          else None)
                    else (case b64_index c3 of
                            None \<Rightarrow> None
                          | Some i3 \<Rightarrow>
                              map_option
                                (\<lambda>bs. [char_of (sextets i0 i1 i2 i3 div 65536),
                                       char_of (sextets i0 i1 i2 i3 div 256),
                                       char_of (sextets i0 i1 i2 i3)] @ bs)
                                (b64decode cs)))
      | _ \<Rightarrow> None)"
| "b64decode _ = None"

definition is_ws :: "char \<Rightarrow> bool" where
  "is_ws c = (c = CHR '' '' \<or> c = CHR 0x09 \<or> c = CHR 0x0A \<or> c = CHR 0x0D)"

definition hex_val :: "char \<Rightarrow> nat option" where
  "hex_val c =
     (let n = (of_char c :: nat)
      in if 48 \<le> n \<and> n \<le> 57 then Some (n - 48)
         else if 97 \<le> n \<and> n \<le> 102 then Some (n - 87)
         else if 65 \<le> n \<and> n \<le> 70 then Some (n - 55)
         else None)"

definition unescape :: "char \<Rightarrow> char option" where
  "unescape e =
     (if e = dquote \<or> e = backslash \<or> e = CHR ''/'' then Some e
      else if e = CHR ''b'' then Some (CHR 0x08)
      else if e = CHR ''f'' then Some (CHR 0x0C)
      else if e = CHR ''n'' then Some (CHR 0x0A)
      else if e = CHR ''r'' then Some (CHR 0x0D)
      else if e = CHR ''t'' then Some (CHR 0x09)
      else None)"

text \<open>
  A string after its opening quote, up to the closing quote: the string and what follows
  it. Control characters are refused, and so is an escape of a code point from 256 on.
\<close>

fun parse_string_body :: "string \<Rightarrow> (string \<times> string) option" where
  "parse_string_body [] = None"
| "parse_string_body (c # cs) =
     (if c = dquote then Some ([], cs)
      else if c = backslash then
        (case cs of
           [] \<Rightarrow> None
         | e # es \<Rightarrow>
             if e = CHR ''u'' then
               (case es of
                  h1 # h2 # h3 # h4 # r \<Rightarrow>
                    (case (hex_val h1, hex_val h2, hex_val h3, hex_val h4) of
                       (Some a, Some b, Some c', Some d) \<Rightarrow>
                         if a = 0 \<and> b = 0
                         then map_option (\<lambda>p. (char_of (c' * 16 + d) # fst p, snd p))
                                (parse_string_body r)
                         else None
                     | _ \<Rightarrow> None)
                | _ \<Rightarrow> None)
             else (case unescape e of
                     None \<Rightarrow> None
                   | Some ch \<Rightarrow> map_option (\<lambda>p. (ch # fst p, snd p)) (parse_string_body es)))
      else if (of_char c :: nat) < 32 then None
      else map_option (\<lambda>p. (c # fst p, snd p)) (parse_string_body cs))"

text \<open>
  An integer: an optional minus, then \<^verbatim>\<open>0\<close> or a run of digits that does not start
  with \<^verbatim>\<open>0\<close>. A fraction or an exponent after it is refused (the documents read here
  carry integers), and so is an integer of more digits than the interpreter converts.
\<close>

definition parse_number :: "string \<Rightarrow> (json \<times> string) option" where
  "parse_number s =
     (let neg = (s \<noteq> [] \<and> hd s = CHR ''-'');
          t = (if neg then tl s else s);
          ds = (if t \<noteq> [] \<and> hd t = CHR ''0'' then ''0'' else takeWhile is_digit t);
          rest = drop (length ds) t
      in if ds = [] then None
         else if rest \<noteq> [] \<and> hd rest \<in> set ''.eE'' then None
         else if length ds > max_str_digits then None
         else Some (JInt (if neg then - int (digits_nat ds) else int (digits_nat ds)), rest))"

text \<open>
  A value, the elements of a list after \<^verbatim>\<open>[\<close> and the members of an object after
  \<^verbatim>\<open>{\<close>, each with what follows it. The first argument bounds the depth of the calls;
  \<open>json_loads\<close> gives it more than any text can use.
\<close>

fun parse_value :: "nat \<Rightarrow> string \<Rightarrow> (json \<times> string) option"
  and parse_elements :: "nat \<Rightarrow> string \<Rightarrow> (json list \<times> string) option"
  and parse_members :: "nat \<Rightarrow> string \<Rightarrow> ((string \<times> json) list \<times> string) option" where
  "parse_value 0 s = None"
| "parse_value (Suc f) s =
     (case dropWhile is_ws s of
        [] \<Rightarrow> None
      | c # cs \<Rightarrow>
          if c = dquote then map_option (\<lambda>p. (JStr (fst p), snd p)) (parse_string_body cs)
          else if c = CHR ''['' then
            (case dropWhile is_ws cs of
               [] \<Rightarrow> None
             | d # ds \<Rightarrow>
                 if d = CHR '']'' then Some (JList [], ds)
                 else map_option (\<lambda>p. (JList (fst p), snd p)) (parse_elements f cs))
          else if c = CHR ''{'' then
            (case dropWhile is_ws cs of
               [] \<Rightarrow> None
             | d # ds \<Rightarrow>
                 if d = CHR ''}'' then Some (JObj [], ds)
                 else map_option (\<lambda>p. (JObj (fst p), snd p)) (parse_members f cs))
          else if take 4 (c # cs) = ''null'' then Some (JNull, drop 4 (c # cs))
          else if take 4 (c # cs) = ''true'' then Some (JBool True, drop 4 (c # cs))
          else if take 5 (c # cs) = ''false'' then Some (JBool False, drop 5 (c # cs))
          else parse_number (c # cs))"
| "parse_elements 0 s = None"
| "parse_elements (Suc f) s =
     (case parse_value f s of
        None \<Rightarrow> None
      | Some (v, r) \<Rightarrow>
          (case dropWhile is_ws r of
             [] \<Rightarrow> None
           | d # ds \<Rightarrow>
               if d = CHR '','' then map_option (\<lambda>p. (v # fst p, snd p)) (parse_elements f ds)
               else if d = CHR '']'' then Some ([v], ds)
               else None))"
| "parse_members 0 s = None"
| "parse_members (Suc f) s =
     (case dropWhile is_ws s of
        [] \<Rightarrow> None
      | q # cs \<Rightarrow>
          if q \<noteq> dquote then None
          else
            (case parse_string_body cs of
               None \<Rightarrow> None
             | Some (k, r) \<Rightarrow>
                 (case dropWhile is_ws r of
                    [] \<Rightarrow> None
                  | colon # r1 \<Rightarrow>
                      if colon \<noteq> CHR '':'' then None
                      else
                        (case parse_value f r1 of
                           None \<Rightarrow> None
                         | Some (v, r2) \<Rightarrow>
                             (case dropWhile is_ws r2 of
                                [] \<Rightarrow> None
                              | d # ds \<Rightarrow>
                                  if d = CHR '','' then
                                    map_option (\<lambda>p. ((k, v) # fst p, snd p)) (parse_members f ds)
                                  else if d = CHR ''}'' then Some ([(k, v)], ds)
                                  else None)))))"

definition json_loads :: "string \<Rightarrow> json option" where
  "json_loads s =
     (case parse_value (2 * length s + 2) s of
        None \<Rightarrow> None
      | Some (v, r) \<Rightarrow> if dropWhile is_ws r = [] then Some v else None)"

text \<open>The receiver's reading of a \<^verbatim>\<open>data\<close> field.\<close>

definition read_data :: "string \<Rightarrow> json option" where
  "read_data d =
     (case b64decode d of
        None \<Rightarrow> None
      | Some bytes \<Rightarrow> (case utf8_decode bytes of None \<Rightarrow> None | Some s \<Rightarrow> json_loads s))"

text \<open>
  The text of the \<^verbatim>\<open>minute-watched\<close> document with the channel id \<open>a\<close>, the
  broadcast id \<open>b\<close> and the user id \<open>u\<close>, character by character.
\<close>

definition watched_text :: "int \<Rightarrow> int \<Rightarrow> int \<Rightarrow> string" where
  "watched_text a b u =
     ''[{'' @ [dquote] @ ''event'' @ [dquote] @ '':'' @ [dquote] @ ''minute-watched'' @ [dquote]
     @ '','' @ [dquote] @ ''properties'' @ [dquote] @ '':{'' @ [dquote] @ ''channel_id'' @ [dquote]
     @ '':'' @ int_repr a @ '','' @ [dquote] @ ''broadcast_id'' @ [dquote] @ '':'' @ int_repr b
     @ '','' @ [dquote] @ ''player'' @ [dquote] @ '':'' @ [dquote] @ ''site'' @ [dquote]
     @ '','' @ [dquote] @ ''user_id'' @ [dquote] @ '':'' @ int_repr u @ ''}}]''"

section \<open>Example values\<close>

definition live_stream :: "int \<Rightarrow> unit stream" where
  "live_stream bid =
     \<lparr>broadcast_id = bid, viewers = JInt 500, drops_enabled = True, game = None,
      title = JStr ''speedrun''\<rparr>"

definition offline_channel :: "unit channel" where
  "offline_channel =
     \<lparr>channel_id = 42, login = ''streamer'', display_name = JNull, spade_url = None,
      points = JNull, stream = None, pending_stream_up = None, priority = False,
      payload_cache = None\<rparr>"

definition online_channel :: "unit channel" where
  "online_channel = offline_channel\<lparr>stream := Some (live_stream 100)\<rparr>"

definition pending_channel :: "unit channel" where
  "pending_channel = offline_channel\<lparr>pending_stream_up := Some 0\<rparr>"

definition pending_world :: world where
  "pending_world = \<lparr>calls = [], hooks = [Display False], next_task = 1, scheduled = [0]\<rparr>"

text \<open>
  A \<^verbatim>\<open>GetStreamInfo\<close> response for a user who is live with the stream id \<open>sid\<close>, and
  one for a user who is not live.
\<close>

definition user_response :: "json \<Rightarrow> json" where
  "user_response strm =
     JObj [(''data'',
        JObj [(''user'',
           JObj [(''id'', JStr ''4242''),
                 (''displayName'', JStr ''Streamer''),
                 (''stream'', strm),
                 (''broadcastSettings'',
                    JObj [(''game'', JNull), (''title'', JStr ''speedrun'')])])])]"

definition live_response :: "string \<Rightarrow> json" where
  "live_response sid =
     user_response
       (JObj [(''id'', JStr sid), (''viewersCount'', JInt 500),
              (''tags'', JList [JObj [(''id'', JStr ''drops'')]])])"

definition offline_response :: json where
  "offline_response = user_response JNull"

definition settings_url :: string where
  "settings_url = ''https://static.twitchcdn.net/config/settings.0123456789abcdef0123456789abcdef.js''"

definition spade_endpoint :: string where
  "spade_endpoint = ''https://video-edge-a1b2c3.pdx01.abs.hls.ttvnw.net/v1/segment/spade.ts''"

definition streamer_html :: string where
  "streamer_html = ''<script src='' @ [dquote] @ settings_url @ [dquote] @ ''></script>''"

definition settings_js :: string where
  "settings_js =
     ''{'' @ [dquote] @ ''spade_url'' @ [dquote] @ '':'' @ [dquote] @ spade_endpoint @ [dquote] @ ''}''"

text \<open>
  A transport that serves \<open>html\<close> as every page but the settings script, \<open>js\<close> as the
  settings script, and answers every POST with \<open>post\<close>.
\<close>

definition serve :: "string \<Rightarrow> string \<Rightarrow> error + response \<Rightarrow> request list \<Rightarrow> error + response" where
  "serve html js post history =
     (case last history of
        HttpRequest m u d \<Rightarrow>
          if m = ''POST'' then post
          else if u = settings_url then Inr \<lparr>status = 200, body = js\<rparr>
          else Inr \<lparr>status = 200, body = html\<rparr>
      | GqlRequest operation variables \<Rightarrow> Inl RequestException)"

text \<open>
  An environment whose lookup always answers \<open>resp\<close>, with the transport \<open>http\<close>, and
  whose pattern search finds the two URLs in exactly the two texts above.
\<close>

definition example_env :: "json \<Rightarrow> (request list \<Rightarrow> error + response) \<Rightarrow> unit env" where
  "example_env resp http =
     \<lparr>user_id = 7,
      gql_request = (\<lambda>history. Inr resp),
      http_request = http,
      BASE_URL = ''https://www.twitch.tv'',
      DROPS_ENABLED_TAG = ''drops'',
      Game = (\<lambda>data. Inr ()),
      re_search = (\<lambda>pattern s.
         if pattern = settings_pattern \<and> s = streamer_html then Some settings_url
         else if pattern = spade_pattern \<and> s = settings_js then Some spade_endpoint
         else None)\<rparr>"

definition accepting :: "request list \<Rightarrow> error + response" where
  "accepting = serve streamer_html settings_js (Inr \<lparr>status = 204, body = []\<rparr>)"

definition watching_channel :: "unit channel" where
  "watching_channel = online_channel\<lparr>spade_url := Some spade_endpoint\<rparr>"

text \<open>
  The state after \<^verbatim>\<open>set_online\<close> on the offline channel, a call of \<^verbatim>\<open>check_online\<close>
  and the arrival of its answer, a live stream, before the task has had its turn.
\<close>

definition overlap_state :: "unit channel \<times> world \<times> coroutine list" where
  "overlap_state =
     run (example_env (live_response ''200'') accepting) [SetOnline, CheckOnline, Resume 0]
       (offline_channel, world0, [])"


text \<open>
  The channel 4242 live with the broadcast 100, and its state after one heartbeat, a
  call of \<^verbatim>\<open>check_online\<close> and the arrival of its answer: the channel is live with
  the broadcast 200.
\<close>

definition streaming_channel :: "unit channel" where
  "streaming_channel = watching_channel\<lparr>channel_id := 4242\<rparr>"

definition restarted_state :: "unit channel \<times> world \<times> coroutine list" where
  "restarted_state =
     run (example_env (live_response ''200'') accepting)
       [SendWatch, Resume 0, CheckOnline, Resume 0] (streaming_channel, world0, [])"

text \<open>Exactly one of the three status queries answers \<^verbatim>\<open>True\<close>.\<close>

definition one_status :: "'g channel \<Rightarrow> bool" where
  "one_status c =
     ((online c \<and> \<not> offline c \<and> \<not> pending_online c)
      \<or> (offline c \<and> \<not> online c \<and> \<not> pending_online c)
      \<or> (pending_online c \<and> \<not> online c \<and> \<not> offline c))"

text \<open>
  The step is the arrival of the answer for a \<^verbatim>\<open>check_online\<close> called from outside,
  the lookup has found a stream, and the channel holds the handle of a pending task.
\<close>

fun adopts_while_pending ::
  "'g env \<Rightarrow> op \<Rightarrow> 'g channel \<times> world \<times> coroutine list \<Rightarrow> bool" where
  "adopts_while_pending tw (Resume k) (c, w, p) =
     (k < length p \<and>
      (case p ! k of
         AwaitLookup a \<Rightarrow> pending_online c \<and> fst (check_online_after tw a c) = Inr True
       | _ \<Rightarrow> False))"
| "adopts_while_pending tw _ s = False"

fun never_adopts_while_pending ::
  "'g env \<Rightarrow> op list \<Rightarrow> 'g channel \<times> world \<times> coroutine list \<Rightarrow> bool" where
  "never_adopts_while_pending tw [] s = True"
| "never_adopts_while_pending tw (x # xs) s =
     (\<not> adopts_while_pending tw x s \<and> never_adopts_while_pending tw xs (step tw x s))"

section \<open>Properties of the transitions\<close>

text \<open>
  C7. \<^verbatim>\<open>set_online\<close> on a channel that is not offline (it is online, or pending online)
  changes nothing: the channel and the world, with its tasks and its fired hooks, are
  returned as they were. On an offline channel it creates the task, stores its handle,
  refreshes the display, and the channel is pending online and not online.
\<close>

theorem set_online_only_from_offline:
  "(\<not> offline c \<longrightarrow> set_online c w = (c, w)) \<and>
   (offline c \<longrightarrow>
      set_online c w =
        (c\<lparr>pending_stream_up := Some (next_task w)\<rparr>,
         w\<lparr>next_task := Suc (next_task w), scheduled := next_task w # scheduled w,
            hooks := hooks w @ [Display False]\<rparr>)
      \<and> pending_online (fst (set_online c w))
      \<and> \<not> online (fst (set_online c w))
      \<and> \<not> offline (fst (set_online c w)))"
  by (simp add: set_online_def offline_def online_def pending_online_def create_task_def fire_def)

theorem set_online_only_from_offline_witness:
  "\<not> offline online_channel \<and> set_online online_channel world0 = (online_channel, world0)
   \<and> \<not> offline pending_channel
   \<and> set_online pending_channel pending_world = (pending_channel, pending_world)
   \<and> offline offline_channel
   \<and> set_online offline_channel world0 = (pending_channel, pending_world)
   \<and> pending_online (fst (set_online offline_channel world0))"
  using set_online_only_from_offline [of online_channel world0]
        set_online_only_from_offline [of pending_channel pending_world]
        set_online_only_from_offline [of offline_channel world0]
  by (simp add: offline_def online_def pending_online_def online_channel_def offline_channel_def
      pending_channel_def pending_world_def world0_def)

text \<open>
  C8. \<^verbatim>\<open>set_offline\<close> is idempotent: a second call right after the first returns the
  channel and the world of the first, so it fires no hook; after the first call the
  channel is offline, with no stream and no pending task.
\<close>

theorem set_offline_idempotent:
  "set_offline (fst (set_offline c w)) (snd (set_offline c w)) = set_offline c w
   \<and> fired (snd (set_offline c w))
        (snd (set_offline (fst (set_offline c w)) (snd (set_offline c w)))) = []
   \<and> offline (fst (set_offline c w))
   \<and> stream (fst (set_offline c w)) = None
   \<and> pending_stream_up (fst (set_offline c w)) = None"
  by (simp add: set_offline_def offline_def online_def invalidate_cache_def fired_def
      split: option.split)

lemma fired_fire: "fired w (fire h w) = [h]"
  by (simp add: fired_def fire_def)

text \<open>The uninterrupted operations are the request followed by the rest.\<close>

lemma get_stream_split:
  "get_stream tw c w =
     (case get_stream_after tw
             (gql_request tw (calls w @ [GqlRequest ''GetStreamInfo'' [(''channel'', login c)]])) c of
        (r, c1) \<Rightarrow> (r, c1, issue (GqlRequest ''GetStreamInfo'' [(''channel'', login c)]) w))"
  by (simp add: get_stream_def get_stream_after_def issue_def Let_def split: sum.split)

lemma check_online_split:
  "check_online tw c w =
     (case check_online_after tw
             (gql_request tw (calls w @ [GqlRequest ''GetStreamInfo'' [(''channel'', login c)]])) c of
        (r, c1) \<Rightarrow> (r, c1, issue (GqlRequest ''GetStreamInfo'' [(''channel'', login c)]) w))"
  by (simp add: check_online_def check_online_after_def get_stream_split Let_def
      split: prod.split sum.split)

lemma online_delay_split:
  "online_delay tw c w =
     online_delay_after tw
       (gql_request tw (calls w @ [GqlRequest ''GetStreamInfo'' [(''channel'', login c)]])) c
       (issue (GqlRequest ''GetStreamInfo'' [(''channel'', login c)]) w)"
  by (simp add: online_delay_def online_delay_after_def check_online_split Let_def
      split: prod.split sum.split)

lemma check_online_after_result:
  "fst (check_online_after tw a c) =
     (case fst (get_stream_after tw a c) of Inl e \<Rightarrow> Inl e | Inr s \<Rightarrow> Inr (s \<noteq> None))"
  by (auto simp add: check_online_after_def Let_def split: prod.split sum.split)

lemma fired_online_delay_after:
  "fired w (snd (snd (online_delay_after tw a c w))) =
     (case fst (get_stream_after tw a c) of
        Inl e \<Rightarrow> []
      | Inr None \<Rightarrow> [Display False]
      | Inr (Some s) \<Rightarrow> [Display False, OnOnline])"
  using check_online_after_result [of tw a c]
  by (auto simp add: online_delay_after_def fired_def fire_def Let_def
      split: prod.split sum.split option.split)

lemma hooks_issue: "hooks (issue r w) = hooks w"
  by (simp add: issue_def)

lemma fired_issue: "fired w (issue r w) = []"
  by (simp add: fired_def issue_def)

lemma fired_cancel: "fired w w' = fired (cancel t w) w'"
  by (simp add: fired_def cancel_def)

lemma fired_set_offline:
  "fired w (snd (set_offline c w)) =
     (if pending_online c then [Display False] else [])
     @ (if online c then [Display False, OnOffline] else [])"
  by (simp add: set_offline_def fired_def fire_def cancel_def online_def pending_online_def
      invalidate_cache_def split: option.split)

lemma fired_set_online:
  "fired w (snd (set_online c w)) = (if offline c then [Display False] else [])"
  by (simp add: set_online_def fired_def fire_def create_task_def)

lemma fired_remove: "fired w (snd (remove c w)) = [Remove]"
  by (simp add: remove_def fired_def fire_def cancel_def split: option.split)

lemma hooks_post_watch: "hooks (fst (snd (post_watch tw u c w))) = hooks w"
  by (simp add: post_watch_def issue_def Let_def split: prod.split sum.split)

lemma hooks_send_watch_start: "hooks (fst (snd (send_watch_start tw c w))) = hooks w"
  by (simp add: send_watch_start_def hooks_post_watch issue_def Let_def split: option.split)

lemma fired_resume: "OnOffline \<notin> set (fired w (fst (snd (resume tw co c w))))"
proof (cases co)
  case (AwaitLookup a)
  then show ?thesis by (simp add: fired_def)
next
  case (AwaitDelayLookup t a)
  show ?thesis
  proof (cases "t \<in> set (scheduled w)")
    case True
    have "fired w (fst (snd (resume tw co c w)))
            = fired (cancel t w) (snd (snd (online_delay_after tw a c (cancel t w))))"
      using True AwaitDelayLookup by (simp add: fired_cancel [of w _ t] split: prod.split)
    then show ?thesis by (simp add: fired_online_delay_after split: sum.split option.split)
  next
    case False
    then show ?thesis using AwaitDelayLookup by (simp add: fired_def)
  qed
next
  case (AwaitPage a)
  then show ?thesis by (simp add: fired_def issue_def Let_def split: sum.split option.split)
next
  case (AwaitSettings a)
  then show ?thesis
    by (simp add: fired_def hooks_post_watch split: sum.split option.split)
next
  case (AwaitPost a)
  then show ?thesis by (simp add: fired_def)
qed

lemma fired_step:
  "OnOffline \<in> set (fired w (fst (snd (step tw x (c, w, p))))) \<longleftrightarrow> x = SetOffline \<and> online c"
proof (cases x)
  case SetOnline
  then show ?thesis by (simp add: fired_set_online case_prod_beta)
next
  case SetOffline
  then show ?thesis by (simp add: fired_set_offline case_prod_beta)
next
  case RemoveChannel
  then show ?thesis by (simp add: fired_remove case_prod_beta)
next
  case (SetViewers v)
  then show ?thesis by (simp add: fired_def)
next
  case CheckOnline
  then show ?thesis by (simp add: fired_def issue_def Let_def)
next
  case SendWatch
  then show ?thesis using hooks_send_watch_start [of tw c w]
    by (simp add: fired_def case_prod_beta)
next
  case (SleepOver t)
  then show ?thesis by (simp add: fired_def issue_def Let_def)
next
  case (Resume k)
  then show ?thesis using fired_resume [of w tw "p ! k" c]
    by (simp add: fired_def case_prod_beta)
qed

lemma int_of_str_200: "int_of_str ''200'' = Some 200"
  by (simp add: int_of_str_def py_strip_def py_isspace_def is_digit_def digits_nat_def
      digit_val_def max_str_digits_def)

lemma int_of_str_4242: "int_of_str ''4242'' = Some 4242"
  by (simp add: int_of_str_def py_strip_def py_isspace_def is_digit_def digits_nat_def
      digit_val_def max_str_digits_def)

lemma from_get_stream_live:
  "from_get_stream (example_env r h)
     (JObj [(''id'', JStr ''4242''),
            (''displayName'', JStr ''Streamer''),
            (''stream'', JObj [(''id'', JStr ''200''), (''viewersCount'', JInt 500),
              (''tags'', JList [JObj [(''id'', JStr ''drops'')]])]),
            (''broadcastSettings'',
                    JObj [(''game'', JNull), (''title'', JStr ''speedrun'')])])
     = Inr (live_stream 200)"
  by (simp add: from_get_stream_def Stream_def example_env_def live_stream_def int_of_str_200)

lemma get_stream_after_live:
  "get_stream_after (example_env r h) (Inr (live_response ''200'')) c =
     (Inr (Some (live_stream 200)), c\<lparr>channel_id := 4242, display_name := JStr ''Streamer''\<rparr>)"
  by (simp add: get_stream_after_def live_response_def user_response_def from_get_stream_live
      int_of_str_4242 Let_def)

lemma check_online_after_live:
  "check_online_after (example_env r h) (Inr (live_response ''200'')) c =
     (Inr True,
      c\<lparr>channel_id := 4242, display_name := JStr ''Streamer'', stream := Some (live_stream 200)\<rparr>)"
  by (simp add: check_online_after_def get_stream_after_live)

lemma get_stream_after_offline:
  "get_stream_after (example_env r h) (Inr offline_response) c =
     (Inr None, c\<lparr>channel_id := 4242, display_name := JStr ''Streamer''\<rparr>)"
  by (simp add: get_stream_after_def offline_response_def user_response_def
      int_of_str_4242 Let_def)

lemma gql_example: "gql_request (example_env r h) = (\<lambda>history. Inr r)"
  by (simp add: example_env_def)

lemma overlap_state_eq:
  "overlap_state =
     (offline_channel\<lparr>pending_stream_up := Some 0, channel_id := 4242,
                      display_name := JStr ''Streamer'', stream := Some (live_stream 200)\<rparr>,
      \<lparr>calls = [GqlRequest ''GetStreamInfo'' [(''channel'', ''streamer'')]],
       hooks = [Display False], next_task = 1, scheduled = [0]\<rparr>,
      [])"
  by (simp add: overlap_state_def set_online_def create_task_def fire_def issue_def offline_def
      gql_example check_online_after_live offline_channel_def world0_def Let_def)

text \<open>
  C9, as the code has it. Of all steps only \<^verbatim>\<open>set_offline\<close> on a channel that holds a
  stream fires \<^verbatim>\<open>on_offline\<close>. \<^verbatim>\<open>set_offline\<close> fires the display refresh once when
  it cancels a pending task, and the display refresh and \<^verbatim>\<open>on_offline\<close> when it clears
  a stream: cancelling the pending task of a channel that holds no stream fires the
  display refresh and nothing else, and cancelling it on a channel that holds a stream as
  well fires the display refresh twice and \<^verbatim>\<open>on_offline\<close>. \<^verbatim>\<open>_online_delay\<close> whose
  lookup finds no stream fires the display refresh and nothing else, neither
  \<^verbatim>\<open>on_online\<close> nor \<^verbatim>\<open>on_offline\<close>, whether it runs uninterrupted or is resumed
  with the answer.
\<close>

theorem offline_hook_only_for_stream:
  "(OnOffline \<in> set (fired w (fst (snd (step tw x (c, w, p))))) \<longleftrightarrow> x = SetOffline \<and> online c)
   \<and> fired w (snd (set_offline c w)) =
        (if pending_online c then [Display False] else [])
        @ (if online c then [Display False, OnOffline] else [])
   \<and> (pending_online c \<and> \<not> online c \<longrightarrow> fired w (snd (set_offline c w)) = [Display False])
   \<and> (pending_online c \<and> online c \<longrightarrow>
        fired w (snd (set_offline c w)) = [Display False, Display False, OnOffline])
   \<and> (fst (get_stream_after tw a c) = Inr None \<longrightarrow>
        fired w (snd (snd (online_delay_after tw a c w))) = [Display False])
   \<and> (fst (get_stream tw c w) = Inr None \<longrightarrow>
        fired w (snd (snd (online_delay tw c w))) = [Display False])"
proof -
  have d: "fst (get_stream_after tw a c) = Inr None \<longrightarrow>
        fired w (snd (snd (online_delay_after tw a c w))) = [Display False]" for a w
    by (simp add: fired_online_delay_after)
  have e: "fst (get_stream tw c w) = Inr None \<longrightarrow>
        fired w (snd (snd (online_delay tw c w))) = [Display False]"
    using d [of "gql_request tw (calls w @ [GqlRequest ''GetStreamInfo'' [(''channel'', login c)]])"
               "issue (GqlRequest ''GetStreamInfo'' [(''channel'', login c)]) w"]
    by (simp add: online_delay_split get_stream_split fired_def issue_def case_prod_beta)
  show ?thesis using fired_step [of w tw x c p] d [of a w] e
    by (simp add: fired_set_offline)
qed

theorem offline_hook_only_for_stream_witness:
  "pending_online pending_channel \<and> \<not> online pending_channel
   \<and> fired pending_world (snd (set_offline pending_channel pending_world)) = [Display False]
   \<and> online online_channel
   \<and> OnOffline \<in> set (fired world0 (fst (snd (step (example_env offline_response accepting)
                                                  SetOffline (online_channel, world0, [])))))
   \<and> pending_online (fst overlap_state) \<and> online (fst overlap_state)
   \<and> fired (fst (snd overlap_state)) (snd (set_offline (fst overlap_state) (fst (snd overlap_state))))
       = [Display False, Display False, OnOffline]
   \<and> fst (get_stream_after (example_env offline_response accepting) (Inr offline_response)
             pending_channel) = Inr None
   \<and> fired pending_world
        (snd (snd (online_delay_after (example_env offline_response accepting)
                     (Inr offline_response) pending_channel pending_world)))
       = [Display False]
   \<and> fst (get_stream (example_env offline_response accepting) pending_channel pending_world)
       = Inr None
   \<and> fired pending_world
        (snd (snd (online_delay (example_env offline_response accepting) pending_channel
                     pending_world)))
       = [Display False]"
proof -
  let ?tw = "example_env offline_response accepting"
  have g: "fst (get_stream_after ?tw (Inr offline_response) pending_channel) = Inr None"
    by (simp add: get_stream_after_offline)
  have g': "fst (get_stream ?tw pending_channel pending_world) = Inr None"
    by (simp add: get_stream_split gql_example get_stream_after_offline)
  have p: "pending_online pending_channel \<and> \<not> online pending_channel"
    by (simp add: pending_online_def online_def pending_channel_def offline_channel_def)
  have q: "online online_channel"
    by (simp add: online_def online_channel_def)
  have r: "pending_online (fst overlap_state) \<and> online (fst overlap_state)"
    by (simp add: overlap_state_eq pending_online_def online_def)
  show ?thesis
    using offline_hook_only_for_stream [of pending_world ?tw SetOffline pending_channel "[]"
                                           "Inr offline_response"]
          offline_hook_only_for_stream [of world0 ?tw SetOffline online_channel "[]"
                                           "Inr offline_response"]
          offline_hook_only_for_stream [of "fst (snd overlap_state)" ?tw SetOffline
                                           "fst overlap_state" "[]" "Inr offline_response"]
          g g' p q r
    by simp
qed

text \<open>
  C9 as stated fails: on the channel that is pending online and holds a stream (the
  answer of a \<^verbatim>\<open>check_online\<close> arrived before the task had its turn),
  \<^verbatim>\<open>set_offline\<close> cancels the pending confirmation and fires \<^verbatim>\<open>on_offline\<close>.
\<close>

theorem cancelling_pending_fires_offline_counterexample:
  "pending_online (fst overlap_state)
   \<and> fired (fst (snd overlap_state))
        (snd (set_offline (fst overlap_state) (fst (snd overlap_state))))
       = [Display False, Display False, OnOffline]
   \<and> scheduled (snd (set_offline (fst overlap_state) (fst (snd overlap_state)))) = []"
  by (simp add: overlap_state_eq pending_online_def online_def set_offline_def fired_def
      fire_def cancel_def invalidate_cache_def)

lemma subscript_truthy: "subscript j k = Inr v \<Longrightarrow> truthy j"
  by (cases j) (auto split: option.splits)

text \<open>
  C10. When the answer to the lookup holds a user object with an \<^verbatim>\<open>id\<close> that converts
  to an integer and a \<^verbatim>\<open>displayName\<close>, \<^verbatim>\<open>get_stream\<close> overwrites the channel's id
  and display name with them, whatever the \<^verbatim>\<open>stream\<close> field holds; when that field is
  null (or otherwise false) the lookup returns no stream and the two fields are
  overwritten all the same.
\<close>

theorem get_stream_backfills:
  assumes "gql_request tw (calls w @ [GqlRequest ''GetStreamInfo'' [(''channel'', login c)]]) = Inr resp"
    and "subscript resp ''data'' = Inr d"
    and "subscript d ''user'' = Inr u"
    and "subscript u ''id'' = Inr i"
    and "py_int i = Inr n"
    and "subscript u ''displayName'' = Inr dn"
  shows "channel_id (fst (snd (get_stream tw c w))) = n
     \<and> display_name (fst (snd (get_stream tw c w))) = dn
     \<and> (\<forall>s. subscript u ''stream'' = Inr s \<and> \<not> truthy s \<longrightarrow>
            get_stream tw c w =
              (Inr None, c\<lparr>channel_id := n, display_name := dn\<rparr>,
               w\<lparr>calls := calls w @ [GqlRequest ''GetStreamInfo'' [(''channel'', login c)]]\<rparr>))"
proof -
  have t1: "truthy resp" using assms(2) by (rule subscript_truthy)
  have t2: "truthy u" using assms(4) by (rule subscript_truthy)
  show ?thesis
    using assms t1 t2
    by (auto simp add: get_stream_def Let_def split: sum.split)
qed

theorem get_stream_backfills_witness:
  "get_stream (example_env offline_response accepting) offline_channel world0 =
     (Inr None, offline_channel\<lparr>channel_id := 4242, display_name := JStr ''Streamer''\<rparr>,
      world0\<lparr>calls := [GqlRequest ''GetStreamInfo'' [(''channel'', ''streamer'')]]\<rparr>)"
proof -
  let ?tw = "example_env offline_response accepting"
  let ?u = "JObj [(''id'', JStr ''4242''), (''displayName'', JStr ''Streamer''), (''stream'', JNull),
                 (''broadcastSettings'', JObj [(''game'', JNull), (''title'', JStr ''speedrun'')])]"
  have 1: "gql_request ?tw (calls world0 @ [GqlRequest ''GetStreamInfo'' [(''channel'', login offline_channel)]]) = Inr offline_response"
    by (simp add: example_env_def)
  have 2: "subscript offline_response ''data'' = Inr (JObj [(''user'', ?u)])"
    by (simp add: offline_response_def user_response_def)
  have 3: "subscript (JObj [(''user'', ?u)]) ''user'' = Inr ?u" by simp
  have 4: "subscript ?u ''id'' = Inr (JStr ''4242'')" by simp
  have 5: "py_int (JStr ''4242'') = Inr 4242"
    by (simp add: int_of_str_4242)
  have 6: "subscript ?u ''displayName'' = Inr (JStr ''Streamer'')" by simp
  have 7: "subscript ?u ''stream'' = Inr JNull \<and> \<not> truthy JNull" by simp
  show ?thesis
    using get_stream_backfills [OF 1 2 3 4 5 6] 7
    by (simp add: offline_channel_def world0_def)
qed

section \<open>Properties of the heartbeat\<close>

text \<open>
  C5. \<^verbatim>\<open>send_watch\<close> on a channel that is not online returns \<^verbatim>\<open>False\<close> and leaves
  the channel and the world as they were: no request reaches the transport.
\<close>

theorem send_watch_offline:
  "\<not> online c \<Longrightarrow> send_watch tw c w = (Inr False, c, w)"
  by (simp add: send_watch_def)

theorem send_watch_offline_witness:
  "\<not> online offline_channel
   \<and> send_watch (example_env offline_response accepting) offline_channel world0
       = (Inr False, offline_channel, world0)
   \<and> calls (snd (snd (send_watch (example_env offline_response accepting) offline_channel world0))) = []"
  using send_watch_offline [of offline_channel "example_env offline_response accepting" world0]
  by (simp add: online_def offline_channel_def world0_def)

declare nat_repr.simps [simp del]

lemma b64_alphabet_ascii: "\<forall>c \<in> set b64_alphabet. (of_char c :: nat) < 128"
  by (simp add: b64_alphabet_def)

lemma b64_char_ascii: "(of_char (b64_char i) :: nat) < 128"
proof -
  have "i mod 64 < length b64_alphabet" by (simp add: b64_alphabet_def)
  then have "b64_char i \<in> set b64_alphabet" unfolding b64_char_def by (rule nth_mem)
  then show ?thesis using b64_alphabet_ascii by blast
qed

lemma b64encode_ascii: "\<forall>c \<in> set (b64encode bs). (of_char c :: nat) < 128"
  by (induction bs rule: b64encode.induct) (simp_all add: Let_def b64_char_ascii)

lemma utf8_decode_ascii: "\<forall>c \<in> set s. (of_char c :: nat) < 128 \<Longrightarrow> utf8_decode s = Some s"
  by (induction s) simp_all

lemma compute_payload_online:
  "stream c = Some s \<Longrightarrow>
   compute_payload tw c =
     (if dumps_allowed (minute_watched tw c s)
      then Inr (JObj [(''data'', JStr (b64encode (utf8_encode (json_dumps (minute_watched tw c s)))))])
      else Inl ValueError)"
  by (simp add: compute_payload_def utf8_decode_ascii [OF b64encode_ascii])



lemma length_nat_repr_le: "length (nat_repr n) \<le> Suc n"
proof (induction n rule: nat_repr.induct)
  case (1 n)
  show ?case
  proof (cases "n < 10")
    case True
    then show ?thesis by (simp add: nat_repr.simps [of n])
  next
    case False
    then have "length (nat_repr (n div 10)) \<le> Suc (n div 10)" using 1 by simp
    moreover have "Suc (n div 10) \<le> n" using False by simp
    ultimately show ?thesis using False by (simp add: nat_repr.simps [of n])
  qed
qed

lemma fits_str_digits_small: "\<bar>i\<bar> \<le> 4299 \<Longrightarrow> fits_str_digits i"
  using length_nat_repr_le [of "nat \<bar>i\<bar>"]
  by (simp add: fits_str_digits_def max_str_digits_def)


text \<open>
  C6. With the page fetched, and the settings script fetched when the page names one:
  \<^verbatim>\<open>get_spade_url\<close> raises the step 1 error exactly when the settings pattern finds
  nothing in the page, raises the step 2 error exactly when the page names a settings
  script and the spade pattern finds nothing in the script, and returns a URL exactly when
  both patterns match and it is the spade pattern's group.
\<close>

theorem spade_url_steps:
  assumes "http_request tw (calls w @ [HttpRequest ''GET'' (url tw c) None]) = Inr page"
    and "case re_search tw settings_pattern (body page) of
           None \<Rightarrow> True
         | Some s \<Rightarrow> http_request tw (calls w @ [HttpRequest ''GET'' (url tw c) None,
                                                HttpRequest ''GET'' s None]) = Inr script"
  shows "(fst (get_spade_url tw c w) = Inl (MinerException ''Error while spade_url extraction: step #1'')
            \<longleftrightarrow> re_search tw settings_pattern (body page) = None)
       \<and> (fst (get_spade_url tw c w) = Inl (MinerException ''Error while spade_url extraction: step #2'')
            \<longleftrightarrow> re_search tw settings_pattern (body page) \<noteq> None
                \<and> re_search tw spade_pattern (body script) = None)
       \<and> (\<forall>m. fst (get_spade_url tw c w) = Inr m
            \<longleftrightarrow> re_search tw settings_pattern (body page) \<noteq> None
                \<and> re_search tw spade_pattern (body script) = Some m)"
  using assms
  by (auto simp add: get_spade_url_def Let_def split: option.splits)

theorem spade_url_steps_witness:
  "fst (get_spade_url (example_env offline_response accepting) offline_channel world0)
     = Inr spade_endpoint
   \<and> fst (get_spade_url
            (example_env offline_response (serve ''<html></html>'' settings_js (Inl RequestException)))
            offline_channel world0)
     = Inl (MinerException ''Error while spade_url extraction: step #1'')
   \<and> fst (get_spade_url
            (example_env offline_response (serve streamer_html ''{}'' (Inl RequestException)))
            offline_channel world0)
     = Inl (MinerException ''Error while spade_url extraction: step #2'')"
proof -
  have hr: "http_request (example_env offline_response h) = h" for h
    by (simp add: example_env_def)
  have u: "url (example_env offline_response h) offline_channel = ''https://www.twitch.tv/streamer''" for h
    by (simp add: url_def example_env_def offline_channel_def)
  have rs: "re_search (example_env offline_response h) settings_pattern streamer_html = Some settings_url" for h
    by (simp add: example_env_def)
  have rs0: "re_search (example_env offline_response h) settings_pattern ''<html></html>'' = None" for h
    by (simp add: example_env_def streamer_html_def settings_pattern_def spade_pattern_def)
  have rp: "re_search (example_env offline_response h) spade_pattern settings_js = Some spade_endpoint" for h
    by (simp add: example_env_def settings_pattern_def spade_pattern_def)
  have rp0: "re_search (example_env offline_response h) spade_pattern ''{}'' = None" for h
    by (simp add: example_env_def settings_pattern_def spade_pattern_def settings_js_def)
  have a: "fst (get_spade_url (example_env offline_response accepting) offline_channel world0)
             = Inr spade_endpoint"
    using spade_url_steps [of "example_env offline_response accepting" world0 offline_channel
            "\<lparr>status = 200, body = streamer_html\<rparr>" "\<lparr>status = 200, body = settings_js\<rparr>"]
    by (simp add: hr u rs rp accepting_def serve_def world0_def settings_url_def)
  have b: "fst (get_spade_url
            (example_env offline_response (serve ''<html></html>'' settings_js (Inl RequestException)))
            offline_channel world0)
     = Inl (MinerException ''Error while spade_url extraction: step #1'')"
    using spade_url_steps [of "example_env offline_response (serve ''<html></html>'' settings_js (Inl RequestException))"
            world0 offline_channel "\<lparr>status = 200, body = ''<html></html>''\<rparr>" "\<lparr>status = 200, body = settings_js\<rparr>"]
    by (simp add: hr u rs0 serve_def world0_def settings_url_def)
  have c: "fst (get_spade_url
            (example_env offline_response (serve streamer_html ''{}'' (Inl RequestException)))
            offline_channel world0)
     = Inl (MinerException ''Error while spade_url extraction: step #2'')"
    using spade_url_steps [of "example_env offline_response (serve streamer_html ''{}'' (Inl RequestException))"
            world0 offline_channel "\<lparr>status = 200, body = streamer_html\<rparr>" "\<lparr>status = 200, body = ''{}''\<rparr>"]
    by (simp add: hr u rs rp0 serve_def world0_def settings_url_def)
  show ?thesis using a b c by simp
qed

section \<open>The three status queries\<close>

lemma get_stream_after_frame:
  "stream (snd (get_stream_after tw a c)) = stream c
   \<and> pending_stream_up (snd (get_stream_after tw a c)) = pending_stream_up c
   \<and> payload_cache (snd (get_stream_after tw a c)) = payload_cache c
   \<and> spade_url (snd (get_stream_after tw a c)) = spade_url c
   \<and> login (snd (get_stream_after tw a c)) = login c"
  by (simp add: get_stream_after_def Let_def split: sum.split)

lemma check_online_after_frame:
  "pending_stream_up (snd (check_online_after tw a c)) = pending_stream_up c
   \<and> (case fst (check_online_after tw a c) of
        Inl e \<Rightarrow> stream (snd (check_online_after tw a c)) = stream c
      | Inr b \<Rightarrow> b = (stream (snd (check_online_after tw a c)) \<noteq> None))"
  using get_stream_after_frame [of tw a c]
  by (auto simp add: check_online_after_def invalidate_cache_def Let_def
      split: prod.split sum.split)

lemma payload_frame:
  "stream (snd (payload tw c)) = stream c
   \<and> pending_stream_up (snd (payload tw c)) = pending_stream_up c"
  by (auto simp add: payload_def split: option.split sum.split)

lemma post_watch_frame:
  "stream (fst (post_watch tw u c w)) = stream c
   \<and> pending_stream_up (fst (post_watch tw u c w)) = pending_stream_up c"
  using payload_frame [of tw c]
  by (auto simp add: post_watch_def Let_def split: prod.split sum.split)

lemma send_watch_start_frame:
  "stream (fst (send_watch_start tw c w)) = stream c
   \<and> pending_stream_up (fst (send_watch_start tw c w)) = pending_stream_up c"
  using post_watch_frame [of tw _ c w]
  by (auto simp add: send_watch_start_def Let_def split: option.split)

lemma one_status_iff: "one_status c \<longleftrightarrow> \<not> (online c \<and> pending_online c)"
  by (auto simp add: one_status_def online_def offline_def pending_online_def)

lemma online_delay_after_status:
  "\<not> (online c \<and> pending_online c) \<Longrightarrow>
   \<not> (online (fst (snd (online_delay_after tw a c w)))
      \<and> pending_online (fst (snd (online_delay_after tw a c w))))"
  using check_online_after_frame [of tw a c]
  by (auto simp add: online_delay_after_def online_def pending_online_def Let_def
      split: prod.split sum.split)

lemma resume_status:
  assumes "one_status c"
    and "\<forall>a. co = AwaitLookup a \<longrightarrow>
           \<not> (pending_online c \<and> fst (check_online_after tw a c) = Inr True)"
  shows "one_status (fst (resume tw co c w))"
proof (cases co)
  case (AwaitLookup a)
  then show ?thesis using assms check_online_after_frame [of tw a c]
    by (auto simp add: one_status_iff online_def pending_online_def split: sum.splits)
next
  case (AwaitDelayLookup t a)
  then show ?thesis using assms(1) online_delay_after_status [of c tw a "cancel t w"]
    by (auto simp add: one_status_iff split: prod.split)
next
  case (AwaitPage a)
  then show ?thesis using assms(1) by (simp add: Let_def split: sum.split option.split)
next
  case (AwaitSettings a)
  then show ?thesis using assms(1) post_watch_frame [of tw _ "c\<lparr>spade_url := Some _\<rparr>" w]
    by (auto simp add: one_status_iff online_def pending_online_def split: sum.split option.split)
next
  case (AwaitPost a)
  then show ?thesis using assms(1) by simp
qed

lemma step_status:
  assumes "one_status c" and "\<not> adopts_while_pending tw x (c, w, p)"
  shows "one_status (fst (step tw x (c, w, p)))"
proof (cases x)
  case SetOnline
  then show ?thesis using assms(1)
    by (auto simp add: one_status_iff set_online_def online_def offline_def pending_online_def
        create_task_def split: prod.split)
next
  case SetOffline
  then show ?thesis
    by (auto simp add: one_status_iff set_offline_def online_def pending_online_def
        invalidate_cache_def split: option.split)
next
  case RemoveChannel
  then show ?thesis
    by (auto simp add: one_status_iff remove_def online_def pending_online_def
        split: option.split)
next
  case (SetViewers v)
  then show ?thesis using assms(1)
    by (auto simp add: one_status_iff set_viewers_def online_def pending_online_def
        split: option.split)
next
  case CheckOnline
  then show ?thesis using assms(1) by (simp add: Let_def)
next
  case SendWatch
  then show ?thesis using assms(1) send_watch_start_frame [of tw c w]
    by (auto simp add: one_status_iff online_def pending_online_def case_prod_beta)
next
  case (SleepOver t)
  then show ?thesis using assms(1) by (simp add: Let_def)
next
  case (Resume k)
  show ?thesis
  proof (cases "k < length p")
    case True
    have "\<forall>a. p ! k = AwaitLookup a \<longrightarrow>
           \<not> (pending_online c \<and> fst (check_online_after tw a c) = Inr True)"
      using assms(2) Resume True by auto
    then have "one_status (fst (resume tw (p ! k) c w))"
      using assms(1) resume_status by blast
    then show ?thesis using Resume True by (simp add: case_prod_beta)
  next
    case False
    then show ?thesis using Resume assms(1) by simp
  qed
qed

lemma run_status:
  assumes "one_status (fst s)" and "never_adopts_while_pending tw xs s"
  shows "one_status (fst (run tw xs s))"
  using assms
proof (induction xs arbitrary: s)
  case Nil
  then show ?case by simp
next
  case (Cons x xs)
  obtain c w p where s: "s = (c, w, p)" by (cases s)
  have "one_status (fst (step tw x s))"
    using Cons.prems step_status [of c tw x w p] by (simp add: s)
  then show ?case using Cons.IH [of "step tw x s"] Cons.prems by simp
qed

lemma adoption_overlaps:
  assumes "adopts_while_pending tw x s"
  shows "online (fst (step tw x s)) \<and> pending_online (fst (step tw x s))"
proof -
  obtain c w p where s: "s = (c, w, p)" by (cases s)
  obtain k where x: "x = Resume k" using assms by (cases x) (auto simp add: s)
  then obtain a where a: "k < length p" "p ! k = AwaitLookup a" "pending_online c"
      "fst (check_online_after tw a c) = Inr True"
    using assms by (auto simp add: s split: coroutine.splits)
  show ?thesis
    using a check_online_after_frame [of tw a c]
    by (simp add: s x online_def pending_online_def)
qed

text \<open>
  C1, as the code has it. \<^verbatim>\<open>offline\<close> holds exactly when neither \<^verbatim>\<open>online\<close> nor
  \<^verbatim>\<open>pending_online\<close> does, on every channel. From a channel on which exactly one of
  the three holds, every run of steps (the signals, removal, the viewer count, calls of
  \<^verbatim>\<open>check_online\<close> and \<^verbatim>\<open>send_watch\<close>, the end of a task's sleep and the arrival of
  answers, in any order) ends in a channel on which exactly one of the three holds,
  unless at some step the answer for a \<^verbatim>\<open>check_online\<close> called from outside arrives
  with a stream while the channel holds the handle of a pending task; that step leaves
  the channel online and pending online at once.
\<close>

theorem one_status_unless_adopted_while_pending:
  "(offline c \<longleftrightarrow> \<not> online c \<and> \<not> pending_online c)
   \<and> (one_status (fst s) \<and> never_adopts_while_pending tw xs s \<longrightarrow> one_status (fst (run tw xs s)))
   \<and> (adopts_while_pending tw x s' \<longrightarrow>
        online (fst (step tw x s')) \<and> pending_online (fst (step tw x s')))"
  using run_status [of s tw xs] adoption_overlaps [of tw x s']
  by (auto simp add: online_def offline_def pending_online_def)

text \<open>
  C1 as stated fails: \<^verbatim>\<open>set_online\<close> on an offline channel, then a \<^verbatim>\<open>check_online\<close>
  whose lookup finds a stream before the task has had its turn, leaves a channel that is
  online and pending online at once; and so does a \<^verbatim>\<open>check_online\<close> called on the
  offline channel whose answer arrives after \<^verbatim>\<open>set_online\<close>.
\<close>

theorem online_and_pending_counterexample:
  "online (fst overlap_state) \<and> pending_online (fst overlap_state)
   \<and> \<not> one_status (fst overlap_state)
   \<and> online (fst (run (example_env (live_response ''200'') accepting)
                    [CheckOnline, SetOnline, Resume 0] (offline_channel, world0, [])))
   \<and> pending_online (fst (run (example_env (live_response ''200'') accepting)
                    [CheckOnline, SetOnline, Resume 0] (offline_channel, world0, [])))"
  by (simp add: overlap_state_eq one_status_iff online_def pending_online_def
      set_online_def create_task_def fire_def issue_def offline_def
      gql_example check_online_after_live offline_channel_def world0_def Let_def)

theorem one_status_unless_adopted_while_pending_witness:
  "(offline offline_channel \<and> \<not> online offline_channel \<and> \<not> pending_online offline_channel)
   \<and> one_status (fst (offline_channel, world0, []))
   \<and> never_adopts_while_pending (example_env (live_response ''200'') accepting)
        [SetOnline, SleepOver 0, CheckOnline, Resume 0, Resume 0, SetOffline]
        (offline_channel, world0, [])
   \<and> one_status (fst (run (example_env (live_response ''200'') accepting)
        [SetOnline, SleepOver 0, CheckOnline, Resume 0, Resume 0, SetOffline]
        (offline_channel, world0, [])))
   \<and> adopts_while_pending (example_env (live_response ''200'') accepting) (Resume 0)
        (run (example_env (live_response ''200'') accepting) [SetOnline, CheckOnline]
           (offline_channel, world0, []))
   \<and> online (fst (step (example_env (live_response ''200'') accepting) (Resume 0)
        (run (example_env (live_response ''200'') accepting) [SetOnline, CheckOnline]
           (offline_channel, world0, []))))
   \<and> pending_online (fst (step (example_env (live_response ''200'') accepting) (Resume 0)
        (run (example_env (live_response ''200'') accepting) [SetOnline, CheckOnline]
           (offline_channel, world0, []))))"
proof -
  let ?tw = "example_env (live_response ''200'') accepting"
  have o: "offline offline_channel"
    by (simp add: offline_def offline_channel_def)
  have a: "one_status (fst (offline_channel, world0, []))"
    by (simp add: one_status_def online_def offline_def pending_online_def offline_channel_def)
  have b: "never_adopts_while_pending ?tw
        [SetOnline, SleepOver 0, CheckOnline, Resume 0, Resume 0, SetOffline]
        (offline_channel, world0, [])"
    by (simp add: set_online_def create_task_def fire_def issue_def offline_def online_def
        pending_online_def gql_example check_online_after_live online_delay_after_def
        cancel_def offline_channel_def world0_def Let_def)
  have d: "adopts_while_pending ?tw (Resume 0)
        (run ?tw [SetOnline, CheckOnline] (offline_channel, world0, []))"
    by (simp add: set_online_def create_task_def fire_def issue_def offline_def
        pending_online_def gql_example check_online_after_live offline_channel_def
        world0_def Let_def)
  note T = one_status_unless_adopted_while_pending
            [where c = offline_channel and s = "(offline_channel, world0, [])" and tw = ?tw
               and xs = "[SetOnline, SleepOver 0, CheckOnline, Resume 0, Resume 0, SetOffline]"
               and x = "Resume 0"
               and s' = "run ?tw [SetOnline, CheckOnline] (offline_channel, world0, [])"]
  have t1: "\<not> online offline_channel \<and> \<not> pending_online offline_channel"
    by (rule iffD1 [OF conjunct1 [OF T] o])
  have t2: "one_status (fst (run ?tw
        [SetOnline, SleepOver 0, CheckOnline, Resume 0, Resume 0, SetOffline]
        (offline_channel, world0, [])))"
    by (rule mp [OF conjunct1 [OF conjunct2 [OF T]] conjI [OF a b]])
  have t3: "online (fst (step ?tw (Resume 0)
        (run ?tw [SetOnline, CheckOnline] (offline_channel, world0, []))))
      \<and> pending_online (fst (step ?tw (Resume 0)
        (run ?tw [SetOnline, CheckOnline] (offline_channel, world0, []))))"
    by (rule mp [OF conjunct2 [OF conjunct2 [OF T]] d])
  show ?thesis
    by (intro conjI;
        rule o a b d t2 conjunct1 [OF t1] conjunct2 [OF t1] conjunct1 [OF t3] conjunct2 [OF t3])
qed

section \<open>The payload read back\<close>

lemma is_digit_char_of: "(k::nat) < 10 \<Longrightarrow> is_digit (char_of (48 + k))"
  by (simp add: is_digit_def)

lemma digit_val_char_of: "(k::nat) < 10 \<Longrightarrow> digit_val (char_of (48 + k)) = k"
  by (simp add: digit_val_def)

lemma nat_repr_digits: "\<forall>c \<in> set (nat_repr n). is_digit c"
proof (induction n rule: nat_repr.induct)
  case (1 n)
  show ?case
  proof (cases "n < 10")
    case True
    then show ?thesis by (simp add: nat_repr.simps [of n] is_digit_char_of)
  next
    case False
    then show ?thesis using 1 by (simp add: nat_repr.simps [of n] is_digit_char_of)
  qed
qed

lemma nat_repr_nonempty: "nat_repr n \<noteq> []"
  by (simp add: nat_repr.simps [of n])

lemma digits_nat_snoc: "digits_nat (ds @ [c]) = 10 * digits_nat ds + digit_val c"
  by (simp add: digits_nat_def)

lemma digits_nat_repr: "digits_nat (nat_repr n) = n"
proof (induction n rule: nat_repr.induct)
  case (1 n)
  show ?case
  proof (cases "n < 10")
    case True
    then show ?thesis by (simp add: nat_repr.simps [of n] digits_nat_def digit_val_char_of)
  next
    case False
    then show ?thesis using 1
      by (simp add: nat_repr.simps [of n] digits_nat_snoc digit_val_char_of)
  qed
qed

lemma char_of_48_zero: "(k::nat) < 10 \<Longrightarrow> (char_of (48 + k) = CHR ''0'') = (k = 0)"
  by (simp add: char_of_eq_iff take_bit_eq_mod)

lemma hd_nat_repr_zero: "(hd (nat_repr n) = CHR ''0'') = (n = 0)"
proof (induction n rule: nat_repr.induct)
  case (1 n)
  show ?case
  proof (cases "n < 10")
    case True
    then show ?thesis by (simp add: nat_repr.simps [of n] char_of_48_zero)
  next
    case False
    then have "hd (nat_repr n) = hd (nat_repr (n div 10))"
      by (simp add: nat_repr.simps [of n] nat_repr_nonempty)
    then show ?thesis using 1 False by simp
  qed
qed

lemma nat_repr_zero: "nat_repr 0 = ''0''"
  by (simp add: nat_repr.simps [of 0] char_of_eq_iff)

lemma takeWhile_digits:
  assumes "rest = [] \<or> \<not> is_digit (hd rest)"
  shows "takeWhile is_digit (nat_repr n @ rest) = nat_repr n"
proof (cases rest)
  case Nil
  then show ?thesis using nat_repr_digits [of n] by (simp add: takeWhile_eq_all_conv)
next
  case (Cons r rs)
  have "\<not> is_digit r" using assms Cons by simp
  then show ?thesis using nat_repr_digits [of n] Cons by (simp add: takeWhile_append2)
qed

lemma is_digit_not_minus: "is_digit c \<Longrightarrow> c \<noteq> CHR ''-''"
  by (auto simp add: is_digit_def)

lemma hd_nat_repr_digit: "is_digit (hd (nat_repr n))"
  using nat_repr_digits [of n] nat_repr_nonempty [of n] by (cases "nat_repr n") simp_all

lemma parse_number_nat:
  assumes "rest = [] \<or> (\<not> is_digit (hd rest) \<and> hd rest \<notin> set ''.eE'')"
    and "length (nat_repr n) \<le> max_str_digits"
  shows "parse_number (nat_repr n @ rest) = Some (JInt (int n), rest)"
proof (cases "n = 0")
  case True
  then show ?thesis using assms(1)
    by (auto simp add: parse_number_def nat_repr_zero digits_nat_def digit_val_def
        max_str_digits_def)
next
  case False
  have a: "hd (nat_repr n @ rest) = hd (nat_repr n)" by (simp add: nat_repr_nonempty)
  have b: "hd (nat_repr n) \<noteq> CHR ''-''" using hd_nat_repr_digit is_digit_not_minus by blast
  have c: "hd (nat_repr n) \<noteq> CHR ''0''" using False by (simp add: hd_nat_repr_zero)
  have d: "takeWhile is_digit (nat_repr n @ rest) = nat_repr n"
    by (rule takeWhile_digits) (use assms(1) in auto)
  show ?thesis using assms
    by (auto simp add: parse_number_def Let_def a b c d nat_repr_nonempty digits_nat_repr)
qed

lemma parse_number_neg:
  assumes "rest = [] \<or> (\<not> is_digit (hd rest) \<and> hd rest \<notin> set ''.eE'')"
    and "length (nat_repr n) \<le> max_str_digits" and "0 < n"
  shows "parse_number (CHR ''-'' # nat_repr n @ rest) = Some (JInt (- int n), rest)"
proof -
  have a: "hd (nat_repr n @ rest) = hd (nat_repr n)" by (simp add: nat_repr_nonempty)
  have c: "hd (nat_repr n) \<noteq> CHR ''0''" using assms(3) by (simp add: hd_nat_repr_zero)
  have d: "takeWhile is_digit (nat_repr n @ rest) = nat_repr n"
    by (rule takeWhile_digits) (use assms(1) in auto)
  show ?thesis using assms
    by (auto simp add: parse_number_def Let_def a c d nat_repr_nonempty digits_nat_repr)
qed

lemma parse_number_int:
  assumes "rest = [] \<or> (\<not> is_digit (hd rest) \<and> hd rest \<notin> set ''.eE'')"
    and "fits_str_digits i"
  shows "parse_number (int_repr i @ rest) = Some (JInt i, rest)"
proof (cases "i < 0")
  case True
  then have "nat \<bar>i\<bar> = nat (- i)" by simp
  then have "length (nat_repr (nat (- i))) \<le> max_str_digits"
    using assms(2) by (simp add: fits_str_digits_def)
  then show ?thesis using True parse_number_neg [OF assms(1), of "nat (- i)"]
    by (simp add: int_repr_def)
next
  case False
  then have "nat \<bar>i\<bar> = nat i" by simp
  then have "length (nat_repr (nat i)) \<le> max_str_digits"
    using assms(2) by (simp add: fits_str_digits_def)
  then show ?thesis using False parse_number_nat [OF assms(1), of "nat i"]
    by (simp add: int_repr_def)
qed

lemma int_repr_cons: "\<exists>c cs. int_repr i = c # cs \<and> (c = CHR ''-'' \<or> is_digit c)"
proof (cases "i < 0")
  case True
  then show ?thesis by (simp add: int_repr_def)
next
  case False
  obtain c cs where r: "nat_repr (nat i) = c # cs"
    using nat_repr_nonempty [of "nat i"] by (cases "nat_repr (nat i)") auto
  then have "is_digit c" using hd_nat_repr_digit [of "nat i"] by simp
  then show ?thesis using False r by (simp add: int_repr_def)
qed

lemma parse_value_int:
  assumes "rest = [] \<or> (\<not> is_digit (hd rest) \<and> hd rest \<notin> set ''.eE'')"
    and "fits_str_digits i"
  shows "parse_value (Suc f) (int_repr i @ rest) = Some (JInt i, rest)"
proof -
  obtain c cs where r: "int_repr i = c # cs" and c: "c = CHR ''-'' \<or> is_digit c"
    using int_repr_cons by blast
  have n1: "\<not> is_ws c" using c by (auto simp add: is_digit_def is_ws_def)
  have n2: "c \<noteq> dquote" using c by (auto simp add: is_digit_def dquote_def)
  have n3: "c \<noteq> CHR ''[''" using c by (auto simp add: is_digit_def)
  have n4: "c \<noteq> CHR ''{''" using c by (auto simp add: is_digit_def)
  have n5: "c \<noteq> CHR ''n''" using c by (auto simp add: is_digit_def)
  have n6: "c \<noteq> CHR ''t''" using c by (auto simp add: is_digit_def)
  have n7: "c \<noteq> CHR ''f''" using c by (auto simp add: is_digit_def)
  have "parse_value (Suc f) (c # cs @ rest) = parse_number (c # cs @ rest)"
    by (simp add: n1 n2 n3 n4 n5 n6 n7)
  then show ?thesis using parse_number_int [OF assms, of] r by simp
qed

lemma parse_value_string:
  "parse_value (Suc f) (CHR 0x22 # cs) =
     map_option (\<lambda>p. (JStr (fst p), snd p)) (parse_string_body cs)"
  by (simp add: is_ws_def dquote_def)

lemma parse_value_list:
  "\<not> is_ws d \<Longrightarrow> d \<noteq> CHR '']'' \<Longrightarrow>
   parse_value (Suc f) (CHR ''['' # d # ds) =
     map_option (\<lambda>p. (JList (fst p), snd p)) (parse_elements f (d # ds))"
  by (simp add: is_ws_def dquote_def)

lemma parse_value_object:
  "\<not> is_ws d \<Longrightarrow> d \<noteq> CHR ''}'' \<Longrightarrow>
   parse_value (Suc f) (CHR ''{'' # d # ds) =
     map_option (\<lambda>p. (JObj (fst p), snd p)) (parse_members f (d # ds))"
  by (simp add: is_ws_def dquote_def)

lemma json_dumps_minute_watched:
  "json_dumps (minute_watched tw c s) = watched_text (channel_id c) (broadcast_id s) (user_id tw)"
  by (simp add: minute_watched_def watched_text_def encode_str_def escape_char_def
      dquote_def backslash_def)

lemma parse_watched_text:
  assumes "fits_str_digits a" and "fits_str_digits b" and "fits_str_digits u"
  shows "parse_value (Suc (Suc (Suc (Suc (Suc (Suc (Suc (Suc (Suc (Suc (Suc k)))))))))))
     (watched_text a b u) =
   Some (JList [JObj [(''event'', JStr ''minute-watched''),
                  (''properties'',
                     JObj [(''channel_id'', JInt a),
                           (''broadcast_id'', JInt b),
                           (''player'', JStr ''site''),
                           (''user_id'', JInt u)])]], [])"
  unfolding watched_text_def
  by (simp add: parse_value_int assms parse_value_string parse_value_list parse_value_object
      is_ws_def is_digit_def dquote_def backslash_def del: parse_value.simps)

lemma index_of_nth: "distinct xs \<Longrightarrow> i < length xs \<Longrightarrow> index_of (xs ! i) xs = Some i"
proof (induction xs arbitrary: i)
  case Nil
  then show ?case by simp
next
  case (Cons x xs)
  show ?case
  proof (cases i)
    case 0
    then show ?thesis by simp
  next
    case (Suc j)
    then have "xs ! j \<in> set xs" using Cons.prems by simp
    then have "xs ! j \<noteq> x" using Cons.prems by auto
    then show ?thesis using Suc Cons by auto
  qed
qed

lemma distinct_b64_alphabet: "distinct b64_alphabet"
  by (simp add: b64_alphabet_def)

lemma length_b64_alphabet: "length b64_alphabet = 64"
  by (simp add: b64_alphabet_def)

lemma b64_index_char: "b64_index (b64_char i) = Some (i mod 64)"
  unfolding b64_index_def b64_char_def
  by (rule index_of_nth [OF distinct_b64_alphabet]) (simp add: length_b64_alphabet)

lemma b64_char_not_pad: "b64_char i \<noteq> CHR ''=''"
proof -
  have "b64_char i \<in> set b64_alphabet"
    unfolding b64_char_def by (rule nth_mem) (simp add: length_b64_alphabet)
  moreover have "CHR ''='' \<notin> set b64_alphabet" by (simp add: b64_alphabet_def)
  ultimately show ?thesis by auto
qed

lemma sextets_join:
  assumes "(n::nat) < 16777216"
  shows "sextets (n div 262144 mod 64) (n div 4096 mod 64) (n div 64 mod 64) (n mod 64) = n"
proof -
  have 1: "n mod 4096 = 64 * (n div 64 mod 64) + n mod 64"
    using mod_mult2_eq [of n 64 64] by simp
  have 2: "n mod 262144 = 4096 * (n div 4096 mod 64) + n mod 4096"
    using mod_mult2_eq [of n 4096 64] by simp
  have 3: "n mod 16777216 = 262144 * (n div 262144 mod 64) + n mod 262144"
    using mod_mult2_eq [of n 262144 64] by simp
  have "n = n mod 16777216" using assms by simp
  then have "n = 262144 * (n div 262144 mod 64)
                 + (4096 * (n div 4096 mod 64) + (64 * (n div 64 mod 64) + n mod 64))"
    using 1 2 3 by (simp only:)
  moreover have "n div 262144 mod 64 = n div 262144" using assms by simp
  ultimately show ?thesis by (simp add: sextets_def algebra_simps)
qed

lemma bytes_join_div:
  assumes "(b::nat) < 256" "(c::nat) < 256"
  shows "(a * 65536 + b * 256 + c) div 65536 = a"
proof -
  have "b * 256 + c < 65536" using assms by simp
  then have "(b * 256 + c) div 65536 = 0" by simp
  moreover have "(a * 65536 + b * 256 + c) div 65536 = a + (b * 256 + c) div 65536"
    using div_mult_self3 [of 65536 "b * 256 + c" a] by (simp add: add.assoc)
  ultimately show ?thesis by simp
qed

lemma bytes_join_mid:
  assumes "(c::nat) < 256"
  shows "(a * 65536 + b * 256 + c) div 256 = a * 256 + b"
proof -
  have "a * 65536 + b * 256 + c = (a * 256 + b) * 256 + c" by simp
  then show ?thesis using assms by simp
qed

lemma b64decode_group:
  assumes "n < 16777216"
  shows "b64decode (b64_char (n div 262144) # b64_char (n div 4096) # b64_char (n div 64)
                    # b64_char n # cs)
         = map_option (\<lambda>bs. [char_of (n div 65536), char_of (n div 256), char_of n] @ bs)
             (b64decode cs)"
  by (simp only: b64decode.simps b64_index_char b64_char_not_pad sextets_join [OF assms]
      prod.case option.case if_False)

lemma b64decode_pad1:
  assumes "n < 16777216" and "n mod 64 = 0"
  shows "b64decode [b64_char (n div 262144), b64_char (n div 4096), b64_char (n div 64), CHR ''='']
         = Some [char_of (n div 65536), char_of (n div 256)]"
proof -
  have "sextets (n div 262144 mod 64) (n div 4096 mod 64) (n div 64 mod 64) 0 = n"
    using sextets_join [OF assms(1)] by (simp only: assms(2))
  then show ?thesis
    by (simp only: b64decode.simps b64_index_char b64_char_not_pad
        prod.case option.case if_False if_True simp_thms)
qed

lemma b64decode_pad2:
  assumes "n < 16777216" and "n mod 64 = 0" and "n div 64 mod 64 = 0"
  shows "b64decode [b64_char (n div 262144), b64_char (n div 4096), CHR ''='', CHR ''='']
         = Some [char_of (n div 65536)]"
proof -
  have "sextets (n div 262144 mod 64) (n div 4096 mod 64) 0 0 = n"
    using sextets_join [OF assms(1)] by (simp only: assms(2) assms(3))
  then show ?thesis
    by (simp only: b64decode.simps b64_index_char b64_char_not_pad
        prod.case option.case if_False if_True simp_thms)
qed

lemma char_of_byte: "char_of (x * 256 + (of_char c :: nat)) = c"
  by (simp add: char_of_eq_iff take_bit_eq_mod)

lemma b64_roundtrip: "b64decode (b64encode bs) = Some bs"
proof (induction bs rule: b64encode.induct)
  case 1
  show ?case by simp
next
  case (2 a)
  define n where "n = (of_char a :: nat) * 65536"
  have lt: "n < 16777216" using nat_of_char_less_256 [of a] unfolding n_def by linarith
  have "n = ((of_char a :: nat) * 1024) * 64" by (simp add: n_def)
  then have m1: "n mod 64 = 0" by (simp only: mod_mult_self2_is_0)
  have "n div 64 = ((of_char a :: nat) * 16) * 64" by (simp add: n_def)
  then have m2: "n div 64 mod 64 = 0" by (simp only: mod_mult_self2_is_0)
  have d: "n div 65536 = of_char a" by (simp add: n_def)
  have "b64encode [a] = [b64_char (n div 262144), b64_char (n div 4096), CHR ''='', CHR ''='']"
    by (simp only: b64encode.simps Let_def n_def append.simps)
  then show ?case using b64decode_pad2 [OF lt m1 m2] by (simp add: d)
next
  case (3 a b)
  define n where "n = (of_char a :: nat) * 65536 + (of_char b :: nat) * 256"
  have lt: "n < 16777216"
    using nat_of_char_less_256 [of a] nat_of_char_less_256 [of b] unfolding n_def by linarith
  have "n = ((of_char a :: nat) * 1024 + (of_char b :: nat) * 4) * 64" by (simp add: n_def)
  then have m1: "n mod 64 = 0" by (simp only: mod_mult_self2_is_0)
  have d1: "n div 65536 = of_char a"
    using bytes_join_div [of "of_char b" 0 "of_char a"] by (simp add: n_def)
  have d2: "n div 256 = (of_char a :: nat) * 256 + of_char b"
    using bytes_join_mid [of 0 "of_char a" "of_char b"] by (simp add: n_def)
  have "b64encode [a, b] =
          [b64_char (n div 262144), b64_char (n div 4096), b64_char (n div 64), CHR ''='']"
    by (simp only: b64encode.simps Let_def n_def append.simps)
  then show ?case using b64decode_pad1 [OF lt m1] by (simp add: d1 d2 char_of_byte)
next
  case (4 a b c bs)
  define n where "n = (of_char a :: nat) * 65536 + (of_char b :: nat) * 256 + (of_char c :: nat)"
  have lt: "n < 16777216"
    using nat_of_char_less_256 [of a] nat_of_char_less_256 [of b] nat_of_char_less_256 [of c]
    unfolding n_def by linarith
  have d1: "n div 65536 = of_char a"
    using bytes_join_div [of "of_char b" "of_char c" "of_char a"] by (simp add: n_def)
  have d2: "n div 256 = (of_char a :: nat) * 256 + of_char b"
    using bytes_join_mid [of "of_char c" "of_char a" "of_char b"] by (simp add: n_def)
  have "n = ((of_char a :: nat) * 256 + of_char b) * 256 + of_char c" by (simp add: n_def)
  then have d3: "char_of n = c" by (simp only: char_of_byte)
  have "b64encode (a # b # c # bs) =
          b64_char (n div 262144) # b64_char (n div 4096) # b64_char (n div 64) # b64_char n
          # b64encode bs"
    by (simp only: b64encode.simps Let_def n_def append.simps)
  then show ?case using b64decode_group [OF lt, of "b64encode bs"] 4
    by (simp add: d1 d2 d3 char_of_byte)
qed

lemma utf8_decode_two:
  assumes "128 \<le> (x::nat)" and "x < 256"
  shows "utf8_decode (char_of (192 + x div 64) # char_of (128 + x mod 64) # bs)
           = map_option ((#) (char_of x)) (utf8_decode bs)"
proof -
  have d: "x div 64 = 2 \<or> x div 64 = 3"
  proof -
    have "128 div 64 \<le> x div 64" using assms(1) by (rule div_le_mono)
    then have "2 \<le> x div 64" by simp
    moreover have "x div 64 < 4" by (rule less_mult_imp_div_less) (use assms(2) in simp)
    ultimately show ?thesis by linarith
  qed
  have h1: "(of_char (char_of (192 + x div 64)) :: nat) = 192 + x div 64"
    using d by (auto simp add: of_char_of)
  have lo: "x mod 64 < 64" by simp
  have h2: "(of_char (char_of (128 + x mod 64)) :: nat) = 128 + x mod 64"
    using lo by (simp add: of_char_of)
  have j: "(192 + x div 64 - 192) * 64 + (128 + x mod 64 - 128) = x" by simp
  have k: "192 + x div 64 = 194 \<or> 192 + x div 64 = 195" using d by linarith
  have n: "\<not> 192 + x div 64 < 128" by simp
  have m: "128 \<le> 128 + x mod 64 \<and> 128 + x mod 64 < 192" using lo by linarith
  show ?thesis
    by (simp only: utf8_decode.simps h1 h2 j k n m list.case if_True if_False simp_thms)
qed

lemma utf8_roundtrip: "utf8_decode (utf8_encode s) = Some s"
proof (induction s)
  case Nil
  show ?case by (simp add: utf8_encode_def)
next
  case (Cons c s)
  have ih: "utf8_decode (utf8_encode s) = Some s" using Cons by simp
  show ?case
  proof (cases "(of_char c :: nat) < 128")
    case True
    then have "utf8_encode (c # s) = c # utf8_encode s" by (simp add: utf8_encode_def)
    then show ?thesis using True ih by simp
  next
    case False
    have x: "128 \<le> (of_char c :: nat)" "(of_char c :: nat) < 256"
      using False nat_of_char_less_256 [of c] by simp_all
    have e: "utf8_encode (c # s) =
               char_of (192 + (of_char c :: nat) div 64) # char_of (128 + (of_char c :: nat) mod 64)
               # utf8_encode s"
      using False by (simp add: utf8_encode_def)
    show ?thesis
      by (simp only: e utf8_decode_two [OF x] ih option.map char_of_char)
  qed
qed




lemma json_loads_watched_text:
  assumes "fits_str_digits a" and "fits_str_digits b" and "fits_str_digits u"
  shows "json_loads (watched_text a b u) =
   Some (JList [JObj [(''event'', JStr ''minute-watched''),
                  (''properties'',
                     JObj [(''channel_id'', JInt a),
                           (''broadcast_id'', JInt b),
                           (''player'', JStr ''site''),
                           (''user_id'', JInt u)])]])"
proof -
  have "11 \<le> 2 * length (watched_text a b u) + 2" by (simp add: watched_text_def)
  then obtain k where "2 * length (watched_text a b u) + 2 = 11 + k"
    using le_Suc_ex by blast
  then have k: "2 * length (watched_text a b u) + 2
                  = Suc (Suc (Suc (Suc (Suc (Suc (Suc (Suc (Suc (Suc (Suc k))))))))))"
    by simp
  show ?thesis
    unfolding json_loads_def k parse_watched_text [OF assms]
    by simp
qed

lemma json_loads_dumps_minute_watched:
  assumes "fits_str_digits (channel_id c)" and "fits_str_digits (broadcast_id s)"
    and "fits_str_digits (user_id tw)"
  shows "json_loads (json_dumps (minute_watched tw c s)) = Some (minute_watched tw c s)"
proof -
  have "json_loads (json_dumps (minute_watched tw c s))
          = json_loads (watched_text (channel_id c) (broadcast_id s) (user_id tw))"
    by (simp only: json_dumps_minute_watched)
  also have "\<dots> = Some (JList [JObj [(''event'', JStr ''minute-watched''),
                  (''properties'',
                     JObj [(''channel_id'', JInt (channel_id c)),
                           (''broadcast_id'', JInt (broadcast_id s)),
                           (''player'', JStr ''site''),
                           (''user_id'', JInt (user_id tw))])]])"
    by (rule json_loads_watched_text [OF assms])
  also have "\<dots> = Some (minute_watched tw c s)"
    by (simp only: minute_watched_def)
  finally show ?thesis .
qed

lemma read_data_payload:
  assumes "fits_str_digits (channel_id c)" and "fits_str_digits (broadcast_id s)"
    and "fits_str_digits (user_id tw)"
  shows "read_data (b64encode (utf8_encode (json_dumps (minute_watched tw c s)))) =
     Some (minute_watched tw c s)"
proof -
  define t where "t = json_dumps (minute_watched tw c s)"
  have j: "json_loads t = Some (minute_watched tw c s)"
    unfolding t_def by (rule json_loads_dumps_minute_watched [OF assms])
  have "read_data (b64encode (utf8_encode t)) = Some (minute_watched tw c s)"
    by (simp add: read_data_def b64_roundtrip utf8_roundtrip j)
  then show ?thesis by (simp only: t_def)
qed

lemma dumps_allowed_minute_watched:
  "dumps_allowed (minute_watched tw c s) \<longleftrightarrow>
     fits_str_digits (channel_id c) \<and> fits_str_digits (broadcast_id s)
     \<and> fits_str_digits (user_id tw)"
  by (simp add: minute_watched_def)

lemma payload_uncached:
  "payload_cache c = None \<Longrightarrow>
   payload tw c =
     (case compute_payload tw c of
        Inl e \<Rightarrow> (Inl e, c)
      | Inr p \<Rightarrow> (Inr p, c\<lparr>payload_cache := Some p\<rparr>))"
  by (simp add: payload_def)






section \<open>The payload cache\<close>

lemma streaming_channel_fields:
  "stream streaming_channel = Some (live_stream 100)"
  "payload_cache streaming_channel = None"
  "spade_url streaming_channel = Some spade_endpoint"
  "channel_id streaming_channel = 4242"
  "login streaming_channel = ''streamer''"
  by (simp_all add: streaming_channel_def watching_channel_def online_channel_def
      offline_channel_def)

lemma streaming_channel_payload:
  "payload (example_env r h) streaming_channel =
     (Inr (JObj [(''data'', JStr (b64encode (utf8_encode (json_dumps
              (minute_watched (example_env r h) streaming_channel (live_stream 100))))))]),
      streaming_channel\<lparr>payload_cache := Some (JObj [(''data'', JStr (b64encode (utf8_encode
          (json_dumps (minute_watched (example_env r h) streaming_channel (live_stream 100))))))])\<rparr>)"
proof -
  have f: "fits_str_digits (channel_id streaming_channel)
           \<and> fits_str_digits (broadcast_id (live_stream 100))
           \<and> fits_str_digits (user_id (example_env r h))"
    by (simp add: streaming_channel_fields live_stream_def example_env_def fits_str_digits_small)
  have da: "dumps_allowed (minute_watched (example_env r h) streaming_channel (live_stream 100))"
    using f by (simp only: dumps_allowed_minute_watched simp_thms)
  show ?thesis
    by (simp only: payload_uncached [OF streaming_channel_fields(2)]
        compute_payload_online [OF streaming_channel_fields(1)] da if_True sum.case)
qed

lemma restarted_state_channel:
  "fst restarted_state =
     streaming_channel
       \<lparr>payload_cache := Some (JObj [(''data'', JStr (b64encode (utf8_encode (json_dumps
           (minute_watched (example_env (live_response ''200'') accepting) streaming_channel
              (live_stream 100))))))]),
        channel_id := 4242, display_name := JStr ''Streamer'',
        stream := Some (live_stream 200)\<rparr>"
proof -
  let ?tw = "example_env (live_response ''200'') accepting"
  let ?p = "JObj [(''data'', JStr (b64encode (utf8_encode (json_dumps
           (minute_watched ?tw streaming_channel (live_stream 100))))))]"
  have on: "online streaming_channel"
    by (simp add: online_def streaming_channel_fields)
  have s1: "step ?tw SendWatch (streaming_channel, world0, []) =
              (streaming_channel\<lparr>payload_cache := Some ?p\<rparr>,
               issue (HttpRequest ''POST'' spade_endpoint (Some ?p)) world0,
               [AwaitPost (http_request ?tw
                  (calls (issue (HttpRequest ''POST'' spade_endpoint (Some ?p)) world0)))])"
    by (simp add: send_watch_start_def on streaming_channel_fields post_watch_def
        streaming_channel_payload Let_def)
  have s2: "step ?tw (Resume 0) (c, w, [AwaitPost a]) = (c, w, [])" for c :: "unit channel" and w a
    by simp
  have s3: "step ?tw (Resume 0) (step ?tw CheckOnline (c, w, [])) =
              (c\<lparr>channel_id := 4242, display_name := JStr ''Streamer'',
                 stream := Some (live_stream 200)\<rparr>, issue
                   (GqlRequest ''GetStreamInfo'' [(''channel'', login c)]) w, [])"
    for c :: "unit channel" and w
    by (simp add: Let_def gql_example check_online_after_live)
  show ?thesis
    unfolding restarted_state_def
    by (simp only: run.simps s1 s2 s3 fst_conv)
qed

lemma check_online_after_clears:
  "check_online_after tw a c = (Inr False, c1) \<Longrightarrow> stream c1 = None \<and> payload_cache c1 = None"
  by (auto simp add: check_online_after_def invalidate_cache_def Let_def
      split: prod.splits sum.splits if_splits)

lemma set_offline_clears:
  "online c \<Longrightarrow> stream (fst (set_offline c w)) = None \<and> payload_cache (fst (set_offline c w)) = None"
  by (cases "pending_stream_up c")
    (auto simp add: set_offline_def invalidate_cache_def online_def Let_def)

text \<open>
  C2. The channel 4242 is live with the broadcast 100 and has sent one heartbeat, so its
  payload is cached; \<^verbatim>\<open>check_online\<close> then finds the channel live with the broadcast
  200 and adopts that stream. The cache is not dropped: the next read of \<^verbatim>\<open>_payload\<close>
  returns the cached record, which decodes to the broadcast id 100, and leaves the
  channel as it is.
\<close>

theorem stale_payload_after_adoption:
  "online (fst restarted_state)
   \<and> map_option broadcast_id (stream (fst restarted_state)) = Some 200
   \<and> channel_id (fst restarted_state) = 4242
   \<and> (\<exists>d. payload (example_env (live_response ''200'') accepting) (fst restarted_state)
             = (Inr (JObj [(''data'', JStr d)]), fst restarted_state)
          \<and> read_data d =
              Some (JList [JObj [(''event'', JStr ''minute-watched''),
                      (''properties'',
                         JObj [(''channel_id'', JInt 4242), (''broadcast_id'', JInt 100),
                               (''player'', JStr ''site''), (''user_id'', JInt 7)])]]))"
proof -
  let ?tw = "example_env (live_response ''200'') accepting"
  define d where "d = b64encode (utf8_encode (json_dumps
           (minute_watched ?tw streaming_channel (live_stream 100))))"
  have c: "fst restarted_state =
             streaming_channel\<lparr>payload_cache := Some (JObj [(''data'', JStr d)]),
               channel_id := 4242, display_name := JStr ''Streamer'',
               stream := Some (live_stream 200)\<rparr>"
    by (simp only: restarted_state_channel d_def)
  have a1: "online (fst restarted_state)" by (simp add: c online_def)
  have a2: "map_option broadcast_id (stream (fst restarted_state)) = Some 200"
    by (simp add: c live_stream_def)
  have a3: "channel_id (fst restarted_state) = 4242" by (simp add: c)
  have a4: "payload ?tw (fst restarted_state) = (Inr (JObj [(''data'', JStr d)]), fst restarted_state)"
    by (simp add: c payload_def)
  have f: "fits_str_digits (channel_id streaming_channel)"
    "fits_str_digits (broadcast_id (live_stream 100))"
    "fits_str_digits (user_id ?tw)"
    by (simp_all add: streaming_channel_fields live_stream_def example_env_def
        fits_str_digits_small)
  have "read_data d = Some (minute_watched ?tw streaming_channel (live_stream 100))"
    unfolding d_def by (rule read_data_payload [OF f])
  also have "minute_watched ?tw streaming_channel (live_stream 100) =
               JList [JObj [(''event'', JStr ''minute-watched''),
                      (''properties'',
                         JObj [(''channel_id'', JInt 4242), (''broadcast_id'', JInt 100),
                               (''player'', JStr ''site''), (''user_id'', JInt 7)])]]"
    by (simp add: minute_watched_def streaming_channel_fields live_stream_def example_env_def)
  finally have a5: "read_data d =
              Some (JList [JObj [(''event'', JStr ''minute-watched''),
                      (''properties'',
                         JObj [(''channel_id'', JInt 4242), (''broadcast_id'', JInt 100),
                               (''player'', JStr ''site''), (''user_id'', JInt 7)])]])" .
  show ?thesis
    by (intro conjI exI) (rule a1, rule a2, rule a3, rule a4, rule a5)
qed

end
